theory Spec2Isabelle
  imports Complex_Main "HOL-Library.Sublist" "HOL-Library.Multiset"
begin

section \<open>Values, cells and errors\<close>

text \<open>
  The dashboard works on pandas data frames read from CSV files. A text cell is a string
  or missing (pandas NaN, here \<open>None\<close>); a numeric cell is a number or missing. Numbers
  are exact rationals: rounding of IEEE doubles is not modelled. Every exception the
  modelled code can raise is a value of \<open>error\<close>.
\<close>

type_synonym text_cell = "string option"
type_synonym num = "rat option"

datatype error =
    ValueError_bin_edges     \<comment> \<open>pandas: "Bin edges must be unique"\<close>
  | ValueError_bin_labels    \<comment> \<open>pandas: "Bin labels must be one fewer than the number of bin edges"\<close>
  | ValueError_nan_to_int    \<comment> \<open>\<open>astype(int)\<close> on a missing value\<close>
  | KeyError
  | IndexError
  | TypeError                \<comment> \<open>\<open>sorted\<close> on a list that mixes strings and NaN\<close>
  | ReError                  \<comment> \<open>\<open>re.error\<close>: the pattern does not compile\<close>
  | PatternOutsideFragment   \<comment> \<open>regular-expression syntax this development does not model\<close>
  | OSError                  \<comment> \<open>the external process could not be started\<close>

text \<open>Results of float arithmetic that may divide by zero: a finite value, an infinity or NaN.\<close>

datatype float = Finite rat | PosInf | NegInf | NaN

definition of_num :: "num \<Rightarrow> float" where
  "of_num x = (case x of None \<Rightarrow> NaN | Some v \<Rightarrow> Finite v)"

fun fadd :: "float \<Rightarrow> float \<Rightarrow> float" where
  "fadd NaN _ = NaN"
| "fadd _ NaN = NaN"
| "fadd (Finite a) (Finite b) = Finite (a + b)"
| "fadd PosInf NegInf = NaN"
| "fadd NegInf PosInf = NaN"
| "fadd PosInf _ = PosInf"
| "fadd _ PosInf = PosInf"
| "fadd NegInf _ = NegInf"
| "fadd _ NegInf = NegInf"

definition fneg :: "float \<Rightarrow> float" where
  "fneg x = (case x of Finite a \<Rightarrow> Finite (- a) | PosInf \<Rightarrow> NegInf | NegInf \<Rightarrow> PosInf | NaN \<Rightarrow> NaN)"

fun fmul :: "float \<Rightarrow> float \<Rightarrow> float" where
  "fmul NaN _ = NaN"
| "fmul _ NaN = NaN"
| "fmul (Finite a) (Finite b) = Finite (a * b)"
| "fmul (Finite a) y = (if a = 0 then NaN else if 0 < a then y else fneg y)"
| "fmul x (Finite b) = (if b = 0 then NaN else if 0 < b then x else fneg x)"
| "fmul PosInf y = y"
| "fmul NegInf y = fneg y"

fun fdiv :: "float \<Rightarrow> float \<Rightarrow> float" where
  "fdiv NaN _ = NaN"
| "fdiv _ NaN = NaN"
| "fdiv (Finite a) (Finite b) =
     (if b \<noteq> 0 then Finite (a / b)
      else if a = 0 then NaN else if 0 < a then PosInf else NegInf)"
| "fdiv (Finite a) _ = Finite 0"
| "fdiv x (Finite b) = (if 0 \<le> b then x else fneg x)"
| "fdiv _ _ = NaN"

section \<open>pandas binning: \<open>cut\<close> and \<open>qcut\<close>\<close>

text \<open>
  \<open>Series.quantile\<close> with the default linear interpolation, on the sorted non-missing
  values: the quantile \<open>k/q\<close> sits at position \<open>k * (n - 1) / q\<close>, between the
  elements at the floor of that position and the next one. The edges are computed exactly
  here; pandas computes them in doubles, so an edge that falls on a data value can move by
  one unit in the last place (for thirds in particular), and a value sitting exactly on
  such an edge can then land in the neighbouring bin.
\<close>

definition quantile_sorted :: "rat list \<Rightarrow> nat \<Rightarrow> nat \<Rightarrow> rat" where
  "quantile_sorted xs k q =
     (let pos = k * (length xs - 1);
          lo = pos div q;
          frac = of_nat (pos mod q) / of_nat q
      in if lo + 1 < length xs then xs ! lo + (xs ! (lo + 1) - xs ! lo) * frac else xs ! lo)"

definition quantiles :: "rat list \<Rightarrow> nat \<Rightarrow> rat list" where
  "quantiles vs q = map (\<lambda>k. quantile_sorted (sort vs) k q) [0..<Suc q]"

text \<open>\<open>algos.unique\<close>: the distinct values in order of first appearance.\<close>

primrec unique_from :: "'a list \<Rightarrow> 'a list \<Rightarrow> 'a list" where
  "unique_from seen [] = []"
| "unique_from seen (x # xs) =
     (if x \<in> set seen then unique_from seen xs else x # unique_from (x # seen) xs)"

definition unique :: "'a list \<Rightarrow> 'a list" where
  "unique xs = unique_from [] xs"

text \<open>\<open>bins.searchsorted(x, side="left")\<close> on increasing bins: the number of leading
  bins strictly below \<open>x\<close>.\<close>

definition searchsorted_left :: "rat list \<Rightarrow> rat \<Rightarrow> nat" where
  "searchsorted_left bins v = length (takeWhile (\<lambda>b. b < v) bins)"

datatype duplicates = Raise | Drop

text \<open>One element of \<open>_bins_to_cuts\<close> (right-closed intervals): the bin index, the
  \<open>include_lowest\<close> patch, the missing-value mask and the label taken.\<close>

definition cut_one :: "rat list \<Rightarrow> 'l list \<Rightarrow> bool \<Rightarrow> num \<Rightarrow> 'l option" where
  "cut_one bins labels include_lowest x =
     (case x of
        None \<Rightarrow> None
      | Some v \<Rightarrow>
          let ids = (if include_lowest \<and> (case bins of [] \<Rightarrow> False | b # _ \<Rightarrow> v = b) then 1
                     else searchsorted_left bins v)
          in if ids = length bins \<or> ids = 0 then None else Some (labels ! (ids - 1)))"

definition bins_to_cuts ::
  "num list \<Rightarrow> rat list \<Rightarrow> 'l list \<Rightarrow> bool \<Rightarrow> duplicates \<Rightarrow> error + 'l option list" where
  "bins_to_cuts xs bins0 labels include_lowest dup =
     (let unique_bins = unique bins0;
          collapsed = (length unique_bins < length bins0 \<and> length bins0 \<noteq> 2)
      in if collapsed \<and> dup = Raise then Inl ValueError_bin_edges
         else
           let bins = (if collapsed then unique_bins else bins0)
           in if int (length labels) \<noteq> int (length bins) - 1 then Inl ValueError_bin_labels
              else Inr (map (cut_one bins labels include_lowest) xs))"

text \<open>\<open>pd.cut(x, bins, labels=labels)\<close> with explicit increasing bins and the defaults
  \<open>right=True\<close>, \<open>include_lowest=False\<close>, \<open>duplicates="raise"\<close>.\<close>

definition pd_cut :: "num list \<Rightarrow> rat list \<Rightarrow> 'l list \<Rightarrow> error + 'l option list" where
  "pd_cut xs bins labels = bins_to_cuts xs bins labels False Raise"

text \<open>
  \<open>pd.qcut(x, q, labels=labels, duplicates=dup)\<close> for \<open>q \<ge> 2\<close> and a non-empty label
  list, as at every call site. The bin edges are the \<open>q + 1\<close> quantiles of the non-missing
  values, and \<open>include_lowest\<close> is on. With no non-missing value every edge is NaN and
  the edges collapse to one: \<open>duplicates="raise"\<close> reports the edges,
  \<open>duplicates="drop"\<close> then fails on the label count.
\<close>

definition qcut :: "num list \<Rightarrow> nat \<Rightarrow> 'l list \<Rightarrow> duplicates \<Rightarrow> error + 'l option list" where
  "qcut xs q labels dup =
     (let valid = List.map_filter id xs
      in if valid = [] then
           Inl (case dup of Raise \<Rightarrow> ValueError_bin_edges | Drop \<Rightarrow> ValueError_bin_labels)
         else bins_to_cuts xs (quantiles valid q) labels True dup)"

text \<open>\<open>Series.rank(method="first")\<close>: ranks from 1, ties in order of appearance,
  missing values keep a missing rank.\<close>

definition rank_first :: "num list \<Rightarrow> num list" where
  "rank_first xs =
     map (\<lambda>i. case xs ! i of
                 None \<Rightarrow> None
               | Some v \<Rightarrow>
                   Some (of_nat (1 + length (filter (\<lambda>y. y < v) (List.map_filter id xs))
                                  + length (filter (\<lambda>y. y = Some v) (take i xs)))))
         [0..<length xs]"

text \<open>\<open>.astype(int)\<close> on a categorical of integer labels: fails on a missing value.\<close>

definition astype_int :: "int option list \<Rightarrow> error + int list" where
  "astype_int xs = (case those xs of None \<Rightarrow> Inl ValueError_nan_to_int | Some ys \<Rightarrow> Inr ys)"

section \<open>RFM scoring (\<open>source_data.show_rfm_analysis\<close>)\<close>

record rfm_row =
  Recency :: num
  Frequency :: num
  Monetary :: num

record rfm_scores =
  R_Score :: int
  F_Score :: int
  M_Score :: int
  RFM_Score :: int
  Segment :: string

definition segment_customer :: "int \<Rightarrow> string" where
  "segment_customer score =
     (if score \<ge> 10 then ''Champions''
      else if score \<ge> 8 then ''Loyal Customers''
      else if score \<ge> 6 then ''Potential Loyalists''
      else if score \<ge> 5 then ''At Risk''
      else ''Lost'')"

definition score_row :: "int \<Rightarrow> int \<Rightarrow> int \<Rightarrow> rfm_scores" where
  "score_row r f m =
     \<lparr>R_Score = r, F_Score = f, M_Score = m, RFM_Score = r + f + m,
      Segment = segment_customer (r + f + m)\<rparr>"

text \<open>
  The scoring part of \<open>show_rfm_analysis\<close>: the three \<open>qcut\<close> calls, the conversion of
  the labels to integers, the sum and the segment. An empty table returns before any
  scoring. The result pairs every input row with its scores, in the input's order.
\<close>

definition show_rfm_analysis ::
  "('a rfm_row_scheme) list \<Rightarrow> error + (('a rfm_row_scheme) \<times> rfm_scores) list" where
  "show_rfm_analysis rfm_data =
     (if rfm_data = [] then Inr []
      else
        case qcut (map Recency rfm_data) 4 [4, 3, 2, 1 :: int] Raise of
          Inl e \<Rightarrow> Inl e
        | Inr rc \<Rightarrow>
        case qcut (rank_first (map Frequency rfm_data)) 4 [1, 2, 3, 4 :: int] Raise of
          Inl e \<Rightarrow> Inl e
        | Inr fc \<Rightarrow>
        case qcut (map Monetary rfm_data) 4 [1, 2, 3, 4 :: int] Raise of
          Inl e \<Rightarrow> Inl e
        | Inr mc \<Rightarrow>
        case astype_int rc of Inl e \<Rightarrow> Inl e | Inr rs \<Rightarrow>
        case astype_int fc of Inl e \<Rightarrow> Inl e | Inr fs \<Rightarrow>
        case astype_int mc of Inl e \<Rightarrow> Inl e | Inr ms \<Rightarrow>
          Inr (zip rfm_data (map (\<lambda>(r, f, m). score_row r f m) (zip rs (zip fs ms)))))"

section \<open>Derived prediction columns (\<open>customer_prediction_insights.preprocess_prediction_data\<close>)\<close>

record customer_row = rfm_row +
  gender :: text_cell
  total_spent :: num

record insight_row = customer_row +
  category :: text_cell
  product_col :: text_cell
  propensity_score :: num
  region :: text_cell
  city :: text_cell
  price_inr :: num
  total_transactions :: num
  embedding_similarity :: num
  propensity_category :: text_cell
  spending_category :: text_cell
  engagement_score :: float

definition fillna :: "string \<Rightarrow> text_cell \<Rightarrow> text_cell" where
  "fillna d c = (case c of None \<Rightarrow> Some d | Some s \<Rightarrow> Some s)"

text \<open>\<open>Series.max()\<close>: the largest non-missing value, NaN when there is none.\<close>

definition series_max :: "num list \<Rightarrow> float" where
  "series_max xs =
     (case List.map_filter id xs of [] \<Rightarrow> NaN | v # vs \<Rightarrow> Finite (fold max vs v))"

text \<open>The normalised term \<open>df['total_transactions'] / df['total_transactions'].max()\<close>.\<close>

definition transactions_ratio :: "num list \<Rightarrow> float list" where
  "transactions_ratio ts = map (\<lambda>t. fdiv (of_num t) (series_max ts)) ts"

definition engagement_scores :: "('a insight_row_scheme) list \<Rightarrow> float list" where
  "engagement_scores df =
     map (\<lambda>(r, ratio).
            fadd (fadd (fmul (of_num (propensity_score r)) (Finite (4 / 10)))
                       (fmul (of_num (embedding_similarity r)) (Finite (3 / 10))))
                 (fmul ratio (Finite (3 / 10))))
         (zip df (transactions_ratio (map total_transactions df)))"

definition propensity_categories :: "num list \<Rightarrow> error + string option list" where
  "propensity_categories ps = pd_cut ps [0, 3 / 10, 6 / 10, 1] [''Low'', ''Medium'', ''High'']"

definition spending_categories :: "num list \<Rightarrow> error + string option list" where
  "spending_categories ss =
     qcut ss 3 [''Low Spender'', ''Medium Spender'', ''High Spender''] Drop"

definition preprocess_prediction_data ::
  "('a insight_row_scheme) list \<Rightarrow> error + ('a insight_row_scheme) list" where
  "preprocess_prediction_data df0 =
     (let df = map (\<lambda>r. r\<lparr>region := fillna ''Unknown'' (region r),
                            city := fillna ''Unknown'' (city r),
                            gender := fillna ''Unknown'' (gender r)\<rparr>) df0
      in case propensity_categories (map propensity_score df) of
           Inl e \<Rightarrow> Inl e
         | Inr pcs \<Rightarrow>
         case spending_categories (map total_spent df) of
           Inl e \<Rightarrow> Inl e
         | Inr scs \<Rightarrow>
           Inr (map (\<lambda>(r, pc, sc, es). r\<lparr>propensity_category := pc, spending_category := sc,
                                          engagement_score := es\<rparr>)
                    (zip df (zip pcs (zip scs (engagement_scores df))))))"

section \<open>Text: lower case, substrings and regular expressions\<close>

text \<open>
  Strings are lists of 8-bit characters. \<open>str.lower()\<close> and case-insensitive matching are
  modelled on ASCII letters; other characters are left as they are.
\<close>

definition to_lower :: "char \<Rightarrow> char" where
  "to_lower c =
     (let n = (of_char c :: nat)
      in if 65 \<le> n \<and> n \<le> 90
         then (case c of Char b0 b1 b2 b3 b4 b5 b6 b7 \<Rightarrow> Char b0 b1 b2 b3 b4 True b6 b7)
         else c)"

definition lower :: "string \<Rightarrow> string" where
  "lower s = map to_lower s"

text \<open>Python's \<open>p in s\<close> on strings: \<open>p\<close> occurs in \<open>s\<close> as a contiguous substring.\<close>

fun is_substring :: "'a list \<Rightarrow> 'a list \<Rightarrow> bool" where
  "is_substring p [] = (p = [])"
| "is_substring p (c # s) = (prefix p (c # s) \<or> is_substring p s)"

text \<open>
  \<open>Series.str.contains(pat, case=False, na=False)\<close> keeps the default \<open>regex=True\<close>: the
  pattern is compiled by Python's \<open>re\<close> with \<open>re.IGNORECASE\<close> and each cell is searched.
  The regular-expression engine is a parameter of the filters: it maps a pattern to the
  error \<open>re.compile\<close> raises or to the search predicate of the compiled pattern. What is
  proved of the filters is proved for every engine.
\<close>

type_synonym regex_engine = "string \<Rightarrow> error + (string \<Rightarrow> bool)"

text \<open>The pattern is compiled once, before any cell is looked at; a missing cell gives
  \<open>False\<close> (\<open>na=False\<close>).\<close>

definition str_contains :: "regex_engine \<Rightarrow> string \<Rightarrow> text_cell list \<Rightarrow> error + bool list" where
  "str_contains engine pat col =
     (case engine pat of
        Inl e \<Rightarrow> Inl e
      | Inr search \<Rightarrow> Inr (map (\<lambda>c. case c of None \<Rightarrow> False | Some s \<Rightarrow> search s) col))"

text \<open>
  One engine, \<open>re_fragment\<close> below, is written out, to evaluate the filter on concrete
  product names. It covers a fragment of the pattern syntax: literal characters, \<open>.\<close> (any
  character but a newline), groups \<open>( )\<close>, alternation \<open>|\<close>, one postfix quantifier
  \<open>*\<close>, \<open>+\<close> or \<open>?\<close> per item, and a backslash before a punctuation character. A pattern
  that \<open>re\<close> rejects gives \<open>ReError\<close>; syntax outside the fragment (character classes,
  counted repeats, anchors, lazy and possessive quantifiers, group extensions, backslash
  before a letter or digit) gives \<open>PatternOutsideFragment\<close>.
\<close>

datatype rx = Lit char | Dot | Eps | Seq rx rx | Alt rx rx | Star rx

text \<open>All the ways \<open>r\<close> matches a prefix of \<open>s\<close>: the list of the remaining suffixes.\<close>

function rmatch :: "rx \<Rightarrow> string \<Rightarrow> string list" where
  "rmatch (Lit c) s =
     (case s of [] \<Rightarrow> [] | d # t \<Rightarrow> if to_lower d = to_lower c then [t] else [])"
| "rmatch Dot s = (case s of [] \<Rightarrow> [] | d # t \<Rightarrow> if d \<noteq> CHR 0x0A then [t] else [])"
| "rmatch Eps s = [s]"
| "rmatch (Seq a b) s = concat (map (rmatch b) (rmatch a s))"
| "rmatch (Alt a b) s = rmatch a s @ rmatch b s"
| "rmatch (Star a) s =
     s # concat (map (rmatch (Star a)) (filter (\<lambda>t. length t < length s) (rmatch a s)))"
  by pat_completeness auto
termination
  by (relation "measures [\<lambda>(r, s). size r, \<lambda>(r, s). length s]") auto

text \<open>\<open>pattern.search(s) is not None\<close>: the pattern matches at some position of \<open>s\<close>.\<close>

fun re_search :: "rx \<Rightarrow> string \<Rightarrow> bool" where
  "re_search r [] = (rmatch r [] \<noteq> [])"
| "re_search r (c # s) = (rmatch r (c # s) \<noteq> [] \<or> re_search r s)"

fun seq_of :: "rx list \<Rightarrow> rx" where
  "seq_of [] = Eps"
| "seq_of [a] = a"
| "seq_of (a # as) = Seq a (seq_of as)"

fun alt_of :: "rx list \<Rightarrow> rx" where
  "alt_of [] = Eps"
| "alt_of [a] = a"
| "alt_of (a # as) = Alt a (alt_of as)"

text \<open>
  The parser reads the pattern left to right. A frame holds the finished alternatives of
  the group being read and the items of its current branch (both newest first); an item
  remembers whether it already carries a quantifier. The stack holds the frames of the
  enclosing groups.
\<close>

type_synonym frame = "rx list \<times> (rx \<times> bool) list"

definition close_branch :: "(rx \<times> bool) list \<Rightarrow> rx" where
  "close_branch items = seq_of (rev (map fst items))"

definition close_frame :: "frame \<Rightarrow> rx" where
  "close_frame f = alt_of (rev (close_branch (snd f) # fst f))"

definition quantify :: "char \<Rightarrow> rx \<Rightarrow> rx" where
  "quantify q r =
     (if q = CHR ''*'' then Star r
      else if q = CHR ''+'' then Seq r (Star r)
      else Alt r Eps)"

definition is_alnum :: "char \<Rightarrow> bool" where
  "is_alnum c =
     (let n = (of_char c :: nat)
      in (48 \<le> n \<and> n \<le> 57) \<or> (65 \<le> n \<and> n \<le> 90) \<or> (97 \<le> n \<and> n \<le> 122))"

fun parse_re :: "frame \<Rightarrow> frame list \<Rightarrow> string \<Rightarrow> error + rx" where
  "parse_re cur stack [] = (if stack = [] then Inr (close_frame cur) else Inl ReError)"
| "parse_re cur stack (c # cs) =
     (if c = CHR 0x5C then
        (case cs of
           [] \<Rightarrow> Inl ReError
         | d # ds \<Rightarrow>
             if is_alnum d \<or> 128 \<le> (of_char d :: nat) then Inl PatternOutsideFragment
             else parse_re (fst cur, (Lit d, False) # snd cur) stack ds)
      else if c = CHR ''('' then
        (case cs of
           [] \<Rightarrow> Inl ReError
         | d # ds \<Rightarrow>
             if d = CHR ''?'' then Inl PatternOutsideFragment
             else parse_re ([], []) (cur # stack) cs)
      else if c = CHR '')'' then
        (case stack of
           [] \<Rightarrow> Inl ReError
         | outer # stack' \<Rightarrow>
             parse_re (fst outer, (close_frame cur, False) # snd outer) stack' cs)
      else if c = CHR ''|'' then
        parse_re (close_branch (snd cur) # fst cur, []) stack cs
      else if c = CHR ''*'' \<or> c = CHR ''+'' \<or> c = CHR ''?'' then
        (case snd cur of
           [] \<Rightarrow> Inl ReError
         | (r, quantified) # rest \<Rightarrow>
             if quantified then Inl PatternOutsideFragment
             else parse_re (fst cur, (quantify c r, True) # rest) stack cs)
      else if c = CHR ''['' \<or> c = CHR ''{'' \<or> c = CHR ''^'' \<or> c = CHR ''$'' then
        Inl PatternOutsideFragment
      else if c = CHR ''.'' then parse_re (fst cur, (Dot, False) # snd cur) stack cs
      else parse_re (fst cur, (Lit c, False) # snd cur) stack cs)"

definition re_compile :: "string \<Rightarrow> error + rx" where
  "re_compile pat = parse_re ([], []) [] pat"

text \<open>The characters that have a meaning of their own in a pattern.\<close>

definition meta_chars :: "char list" where
  "meta_chars = [CHR 0x5C, CHR ''('', CHR '')'', CHR ''|'', CHR ''*'', CHR ''+'', CHR ''?'',
                 CHR ''['', CHR ''{'', CHR ''^'', CHR ''$'', CHR ''.'']"

definition re_fragment :: regex_engine where
  "re_fragment pat = (case re_compile pat of Inl e \<Rightarrow> Inl e | Inr r \<Rightarrow> Inr (re_search r))"

section \<open>Persona classification (\<open>generate_persona\<close> in \<open>predicted_results\<close>)\<close>

definition persona_labels :: "string list" where
  "persona_labels =
     [''Champions'', ''Loyal Customers'', ''Potential Loyalists'', ''Big Spenders'',
      ''New Customers'', ''At Risk'', ''Hibernating'']"

text \<open>The loop over the labels: the first label whose lower-case form occurs in the
  lower-case output is returned.\<close>

fun first_label :: "string list \<Rightarrow> string \<Rightarrow> string" where
  "first_label [] stdout = ''Unclassified''"
| "first_label (p # ps) stdout =
     (if is_substring (lower p) (lower stdout) then p else first_label ps stdout)"

text \<open>
  The external call \<open>subprocess.run(["ollama", "run", "llama3.2"], input=prompt, ...)\<close> is
  a parameter: for a row it either raises (\<open>Inl\<close>) or returns the captured standard output
  (\<open>Inr\<close>). The function has no exception handler, so what the call raises leaves the
  function.
\<close>

definition generate_persona :: "('r \<Rightarrow> error + string) \<Rightarrow> 'r \<Rightarrow> error + string" where
  "generate_persona ollama row =
     (case ollama row of
        Inl e \<Rightarrow> Inl e
      | Inr stdout \<Rightarrow> Inr (first_label persona_labels stdout))"

section \<open>Filters of the prediction page (\<open>predicted_results.show_predictions_page\<close>)\<close>

text \<open>
  A customer identifier is a number or a string, as the CSV has it; the selection
  \<open>"All"\<close> is the string. A data frame is its column names and its rows; a field of a
  row whose column is absent from \<open>columns\<close> is never read. The session's
  \<open>temp_filters\<close> dictionary is a record of optional entries: \<open>None\<close> is an absent key.
\<close>

datatype ident = IdNum int | IdText string

record pred_row = customer_row +
  customer_id :: ident
  name :: text_cell
  state :: text_cell
  city_name :: text_cell
  purchased_products_names :: text_cell
  Similarity_Score :: num

record 'r data_frame =
  columns :: "string list"
  rows :: "'r list"

record temp_filters =
  tf_customer_id :: "ident option"
  tf_name :: "text_cell option"
  tf_gender :: "text_cell option"
  tf_region :: "text_cell option"
  tf_city :: "text_cell option"
  tf_products :: "string list option"
  tf_similarity :: "(rat \<times> rat) option"
  tf_spent :: "(rat \<times> rat) option"

record session_state =
  temp_filters :: temp_filters
  last_selected_id :: "ident option"
  last_selected_name :: "string option"

text \<open>pandas \<open>==\<close> between a text column and a value: a missing cell equals nothing.\<close>

definition cell_eq :: "text_cell \<Rightarrow> text_cell \<Rightarrow> bool" where
  "cell_eq a b = (a \<noteq> None \<and> a = b)"

text \<open>Python truth value of a dictionary entry: the empty string is false, NaN is true.\<close>

definition truthy :: "text_cell \<Rightarrow> bool" where
  "truthy c = (c \<noteq> Some [])"

definition in_range :: "num \<Rightarrow> rat \<Rightarrow> rat \<Rightarrow> bool" where
  "in_range x lo hi = (case x of None \<Rightarrow> False | Some v \<Rightarrow> lo \<le> v \<and> v \<le> hi)"

text \<open>\<open>column * 100\<close> on a numeric column. The product is a double: \<open>times100\<close> is
  the parameter that gives it for a value (multiplication by 100, rounded).\<close>

definition percent :: "(rat \<Rightarrow> rat) \<Rightarrow> num \<Rightarrow> num" where
  "percent times100 x = (case x of None \<Rightarrow> None | Some v \<Rightarrow> Some (times100 v))"

definition and_then :: "error + 'a \<Rightarrow> ('a \<Rightarrow> error + 'b) \<Rightarrow> error + 'b" where
  "and_then m f = (case m of Inl e \<Rightarrow> Inl e | Inr x \<Rightarrow> f x)"

subsection \<open>Synchronised selection of customer identifier and name\<close>

text \<open>
  The block after the identifier select box: when the selected identifier differs from
  the stored one it is stored; a specific identifier copies the fields of its first row
  and asks for a rerun (the flag returned), \<open>"All"\<close> resets the dependent fields.
  \<open>.iloc[0]\<close> on an empty selection raises \<open>IndexError\<close>.
\<close>

definition select_customer_id ::
  "('a pred_row_scheme) data_frame \<Rightarrow> ident \<Rightarrow> session_state \<Rightarrow> error + (session_state \<times> bool)" where
  "select_customer_id df selected_customer_id st =
     (if Some selected_customer_id \<noteq> tf_customer_id (temp_filters st) then
        let tf = (temp_filters st)\<lparr>tf_customer_id := Some selected_customer_id\<rparr>
        in if selected_customer_id \<noteq> IdText ''All'' then
             (case filter (\<lambda>r. customer_id r = selected_customer_id) (rows df) of
                [] \<Rightarrow> Inl IndexError
              | customer_data # _ \<Rightarrow>
                  let tf1 = tf\<lparr>tf_name := Some (name customer_data),
                               tf_gender := Some (gender customer_data)\<rparr>;
                      tf2 = (if ''state'' \<in> set (columns df)
                             then tf1\<lparr>tf_region := Some (state customer_data)\<rparr> else tf1);
                      tf3 = (if ''city_name'' \<in> set (columns df)
                             then tf2\<lparr>tf_city := Some (city_name customer_data)\<rparr> else tf2)
                  in Inr (st\<lparr>temp_filters := tf3,
                              last_selected_id := Some selected_customer_id\<rparr>, True))
           else
             Inr (st\<lparr>temp_filters :=
                        tf\<lparr>tf_name := Some (Some ''All''), tf_gender := Some (Some ''All''),
                           tf_region := Some (Some ''All''), tf_city := Some (Some ''All'')\<rparr>\<rparr>,
                  False)
      else Inr (st, False))"

text \<open>The block after the name select box, with the roles of identifier and name
  exchanged.\<close>

definition select_name ::
  "('a pred_row_scheme) data_frame \<Rightarrow> string \<Rightarrow> session_state \<Rightarrow> error + (session_state \<times> bool)" where
  "select_name df selected_name st =
     (if Some (Some selected_name) \<noteq> tf_name (temp_filters st) then
        let tf = (temp_filters st)\<lparr>tf_name := Some (Some selected_name)\<rparr>
        in if selected_name \<noteq> ''All'' then
             (case filter (\<lambda>r. cell_eq (name r) (Some selected_name)) (rows df) of
                [] \<Rightarrow> Inl IndexError
              | customer_data # _ \<Rightarrow>
                  let tf1 = tf\<lparr>tf_customer_id := Some (customer_id customer_data),
                               tf_gender := Some (gender customer_data)\<rparr>;
                      tf2 = (if ''state'' \<in> set (columns df)
                             then tf1\<lparr>tf_region := Some (state customer_data)\<rparr> else tf1);
                      tf3 = (if ''city_name'' \<in> set (columns df)
                             then tf2\<lparr>tf_city := Some (city_name customer_data)\<rparr> else tf2)
                  in Inr (st\<lparr>temp_filters := tf3,
                              last_selected_name := Some selected_name\<rparr>, True))
           else
             Inr (st\<lparr>temp_filters :=
                        tf\<lparr>tf_customer_id := Some (IdText ''All''),
                           tf_gender := Some (Some ''All''),
                           tf_region := Some (Some ''All''), tf_city := Some (Some ''All'')\<rparr>\<rparr>,
                  False)
      else Inr (st, False))"

subsection \<open>Applying the stored filters\<close>

text \<open>
  The block run once the filters are applied narrows \<open>filtered_df\<close> step by step.
  \<open>temp_filters.get(k) != "All"\<close> is also true for an absent key, and the lookup
  \<open>temp_filters[k]\<close> that follows then raises \<open>KeyError\<close>; region and city test the entry
  for truth first. A region or city filter on a frame without the column raises
  \<open>KeyError\<close> as well.
\<close>

definition by_customer_id :: "temp_filters \<Rightarrow> ('a pred_row_scheme) list \<Rightarrow> error + ('a pred_row_scheme) list" where
  "by_customer_id tf xs =
     (case tf_customer_id tf of
        None \<Rightarrow> Inl KeyError
      | Some v \<Rightarrow> Inr (if v \<noteq> IdText ''All'' then filter (\<lambda>r. customer_id r = v) xs else xs))"

definition by_name :: "temp_filters \<Rightarrow> ('a pred_row_scheme) list \<Rightarrow> error + ('a pred_row_scheme) list" where
  "by_name tf xs =
     (case tf_name tf of
        None \<Rightarrow> Inl KeyError
      | Some v \<Rightarrow> Inr (if v \<noteq> Some ''All'' then filter (\<lambda>r. cell_eq (name r) v) xs else xs))"

definition by_gender :: "temp_filters \<Rightarrow> ('a pred_row_scheme) list \<Rightarrow> error + ('a pred_row_scheme) list" where
  "by_gender tf xs =
     (case tf_gender tf of
        None \<Rightarrow> Inl KeyError
      | Some v \<Rightarrow> Inr (if v \<noteq> Some ''All'' then filter (\<lambda>r. cell_eq (gender r) v) xs else xs))"

definition by_region ::
  "temp_filters \<Rightarrow> string list \<Rightarrow> ('a pred_row_scheme) list \<Rightarrow> error + ('a pred_row_scheme) list" where
  "by_region tf cols xs =
     (case tf_region tf of
        None \<Rightarrow> Inr xs
      | Some v \<Rightarrow>
          if truthy v \<and> v \<noteq> Some ''All'' then
            (if ''state'' \<in> set cols then Inr (filter (\<lambda>r. cell_eq (state r) v) xs)
             else Inl KeyError)
          else Inr xs)"

definition by_city ::
  "temp_filters \<Rightarrow> string list \<Rightarrow> ('a pred_row_scheme) list \<Rightarrow> error + ('a pred_row_scheme) list" where
  "by_city tf cols xs =
     (case tf_city tf of
        None \<Rightarrow> Inr xs
      | Some v \<Rightarrow>
          if truthy v \<and> v \<noteq> Some ''All'' then
            (if ''city_name'' \<in> set cols then Inr (filter (\<lambda>r. cell_eq (city_name r) v) xs)
             else Inl KeyError)
          else Inr xs)"

text \<open>The loop \<open>for product in products: mask |= col.str.contains(product, ...)\<close>.\<close>

fun products_mask ::
  "regex_engine \<Rightarrow> string list \<Rightarrow> text_cell list \<Rightarrow> bool list \<Rightarrow> error + bool list" where
  "products_mask engine [] col msk = Inr msk"
| "products_mask engine (product # ps) col msk =
     (case str_contains engine product col of
        Inl e \<Rightarrow> Inl e
      | Inr m \<Rightarrow> products_mask engine ps col (map (\<lambda>(a, b). a \<or> b) (zip msk m)))"

text \<open>What the finished mask says about one cell: the pattern of some selected product
  is found in it.\<close>

definition product_hit :: "regex_engine \<Rightarrow> string list \<Rightarrow> text_cell \<Rightarrow> bool" where
  "product_hit engine ps cell =
     list_ex (\<lambda>p. case engine p of
                     Inl e \<Rightarrow> False
                   | Inr search \<Rightarrow> (case cell of None \<Rightarrow> False | Some s \<Rightarrow> search s)) ps"

definition by_products ::
  "regex_engine \<Rightarrow> temp_filters \<Rightarrow> ('a pred_row_scheme) list \<Rightarrow> error + ('a pred_row_scheme) list" where
  "by_products engine tf xs =
     (case tf_products tf of
        None \<Rightarrow> Inr xs
      | Some ps \<Rightarrow>
          if ps = [] then Inr xs
          else
            (case products_mask engine ps (map purchased_products_names xs)
                    (replicate (length xs) False) of
               Inl e \<Rightarrow> Inl e
             | Inr msk \<Rightarrow> Inr (map fst (filter snd (zip xs msk)))))"

definition by_similarity ::
  "(rat \<Rightarrow> rat) \<Rightarrow> temp_filters \<Rightarrow> ('a pred_row_scheme) list \<Rightarrow> error + ('a pred_row_scheme) list" where
  "by_similarity times100 tf xs =
     (case tf_similarity tf of
        None \<Rightarrow> Inr xs
      | Some (lo, hi) \<Rightarrow>
          Inr (filter (\<lambda>r. in_range (percent times100 (Similarity_Score r)) lo hi) xs))"

definition by_spent :: "temp_filters \<Rightarrow> ('a pred_row_scheme) list \<Rightarrow> error + ('a pred_row_scheme) list" where
  "by_spent tf xs =
     (case tf_spent tf of
        None \<Rightarrow> Inr xs
      | Some (lo, hi) \<Rightarrow> Inr (filter (\<lambda>r. in_range (total_spent r) lo hi) xs))"

definition apply_filters ::
  "regex_engine \<Rightarrow> (rat \<Rightarrow> rat) \<Rightarrow> temp_filters \<Rightarrow> ('a pred_row_scheme) data_frame \<Rightarrow>
     error + ('a pred_row_scheme) data_frame" where
  "apply_filters engine times100 tf df =
     and_then (by_customer_id tf (rows df)) (\<lambda>r1.
     and_then (by_name tf r1) (\<lambda>r2.
     and_then (by_gender tf r2) (\<lambda>r3.
     and_then (by_region tf (columns df) r3) (\<lambda>r4.
     and_then (by_city tf (columns df) r4) (\<lambda>r5.
     and_then (by_products engine tf r5) (\<lambda>r6.
     and_then (by_similarity times100 tf r6) (\<lambda>r7.
     and_then (by_spent tf r7) (\<lambda>r8.
     Inr (df\<lparr>rows := r8\<rparr>)))))))))"

section \<open>Inline filters of the insights page (\<open>customer_prediction_insights.display_inline_filters\<close>)\<close>

text \<open>The values read from the widgets. \<open>recency_max\<close> and \<open>min_frequency\<close> are
  whole numbers; \<open>top_n\<close> comes from a number input with \<open>min_value=10\<close>, so it is
  never negative.\<close>

record inline_criteria =
  selected_category :: string
  selected_product :: string
  propensity_range :: "rat \<times> rat"
  selected_region :: string
  price_range :: "rat \<times> rat"
  selected_gender :: string
  selected_spending :: string
  recency_max :: int
  min_frequency :: int
  top_n :: nat

text \<open>
  \<open>sort_values('propensity_score', ascending=False)\<close> rearranges the rows, larger scores
  first and missing scores last. The default sort kind (quicksort) promises no order among
  rows with equal scores, so the sort is a parameter of \<open>display_inline_filters\<close>: any
  function that \<open>rearranges\<close> its input. \<open>sort_values_desc\<close> is one such function (an
  insertion sort), used to evaluate the filters on concrete frames.
\<close>

definition rearranges :: "('r list \<Rightarrow> 'r list) \<Rightarrow> bool" where
  "rearranges sort_values = (\<forall>xs. mset (sort_values xs) = mset xs)"

definition before :: "num \<Rightarrow> num \<Rightarrow> bool" where
  "before a b =
     (case a of
        None \<Rightarrow> b = None
      | Some x \<Rightarrow> (case b of None \<Rightarrow> True | Some y \<Rightarrow> y \<le> x))"

fun insort_desc :: "('r \<Rightarrow> num) \<Rightarrow> 'r \<Rightarrow> 'r list \<Rightarrow> 'r list" where
  "insort_desc k x [] = [x]"
| "insort_desc k x (y # ys) =
     (if before (k x) (k y) then x # y # ys else y # insort_desc k x ys)"

definition sort_values_desc :: "('r \<Rightarrow> num) \<Rightarrow> 'r list \<Rightarrow> 'r list" where
  "sort_values_desc k xs = foldr (insort_desc k) xs []"

text \<open>\<open>DataFrame.head(n)\<close> for \<open>n \<ge> 0\<close>: the first \<open>n\<close> rows.\<close>

definition head :: "nat \<Rightarrow> 'a list \<Rightarrow> 'a list" where
  "head n xs = take n xs"

text \<open>
  The first part of \<open>display_inline_filters\<close> builds the widgets, and can raise before
  any filter is applied: \<open>sorted(df[col].unique().tolist())\<close> raises \<open>TypeError\<close> when
  the column holds both strings and a missing value, and \<open>int(df[col].max())\<close> raises
  \<open>ValueError\<close> when the maximum is NaN (an empty or all-missing column). The Streamlit
  widgets themselves are taken to accept their arguments and to return the selection.
\<close>

definition sorted_options :: "text_cell list \<Rightarrow> error + unit" where
  "sorted_options col =
     (if None \<in> set col \<and> list_ex (\<lambda>c. c \<noteq> None) col then Inl TypeError else Inr ())"

definition int_of_max :: "num list \<Rightarrow> error + int" where
  "int_of_max col =
     (case series_max col of
        Finite v \<Rightarrow> Inr (if 0 \<le> v then \<lfloor>v\<rfloor> else \<lceil>v\<rceil>)
      | _ \<Rightarrow> Inl ValueError_nan_to_int)"

definition inline_widgets ::
  "inline_criteria \<Rightarrow> ('a insight_row_scheme) data_frame \<Rightarrow> error + unit" where
  "inline_widgets c df =
     and_then (sorted_options (map category (rows df))) (\<lambda>_.
     and_then (sorted_options (map product_col
                 (if selected_category c \<noteq> ''All''
                  then filter (\<lambda>r. cell_eq (category r) (Some (selected_category c))) (rows df)
                  else rows df))) (\<lambda>_.
     and_then (sorted_options (map region (rows df))) (\<lambda>_.
     and_then (sorted_options (map gender (rows df))) (\<lambda>_.
     and_then (if ''Recency'' \<in> set (columns df)
               then int_of_max (map Recency (rows df)) else Inr 365) (\<lambda>_.
     and_then (if ''Frequency'' \<in> set (columns df)
               then int_of_max (map Frequency (rows df)) else Inr 0) (\<lambda>_.
     Inr ()))))))"

text \<open>
  The second part applies the filters: the steps in the source's order, then the sort by
  propensity and the cut to the first \<open>top_n\<close> rows. The result is the frame together
  with the selected product and category.
\<close>

definition apply_inline_filters ::
  "(('a insight_row_scheme) list \<Rightarrow> ('a insight_row_scheme) list) \<Rightarrow> inline_criteria \<Rightarrow>
     ('a insight_row_scheme) data_frame \<Rightarrow> ('a insight_row_scheme) data_frame \<times> string \<times> string" where
  "apply_inline_filters sort_values c df =
     (let filtered_df = rows df;
          filtered_df =
            (if selected_category c \<noteq> ''All''
             then filter (\<lambda>r. cell_eq (category r) (Some (selected_category c))) filtered_df
             else filtered_df);
          filtered_df =
            (if selected_product c \<noteq> ''All''
             then filter (\<lambda>r. cell_eq (product_col r) (Some (selected_product c))) filtered_df
             else filtered_df);
          filtered_df =
            filter (\<lambda>r. in_range (propensity_score r)
                           (fst (propensity_range c)) (snd (propensity_range c))) filtered_df;
          filtered_df =
            (if selected_region c \<noteq> ''All''
             then filter (\<lambda>r. cell_eq (region r) (Some (selected_region c))) filtered_df
             else filtered_df);
          filtered_df =
            filter (\<lambda>r. in_range (price_inr r) (fst (price_range c)) (snd (price_range c)))
              filtered_df;
          filtered_df =
            (if selected_gender c \<noteq> ''All''
             then filter (\<lambda>r. cell_eq (gender r) (Some (selected_gender c))) filtered_df
             else filtered_df);
          filtered_df =
            (if selected_spending c \<noteq> ''All''
             then filter (\<lambda>r. cell_eq (spending_category r) (Some (selected_spending c)))
                    filtered_df
             else filtered_df);
          filtered_df =
            (if ''Recency'' \<in> set (columns df)
             then filter (\<lambda>r. case Recency r of None \<Rightarrow> False
                               | Some v \<Rightarrow> v \<le> of_int (recency_max c)) filtered_df
             else filtered_df);
          filtered_df =
            (if ''Frequency'' \<in> set (columns df)
             then filter (\<lambda>r. case Frequency r of None \<Rightarrow> False
                               | Some v \<Rightarrow> of_int (min_frequency c) \<le> v) filtered_df
             else filtered_df);
          filtered_df = head (top_n c) (sort_values filtered_df)
      in (df\<lparr>rows := filtered_df\<rparr>, selected_product c, selected_category c))"

definition display_inline_filters ::
  "(('a insight_row_scheme) list \<Rightarrow> ('a insight_row_scheme) list) \<Rightarrow> inline_criteria \<Rightarrow>
     ('a insight_row_scheme) data_frame \<Rightarrow>
     error + (('a insight_row_scheme) data_frame \<times> string \<times> string)" where
  "display_inline_filters sort_values c df =
     and_then (inline_widgets c df) (\<lambda>_. Inr (apply_inline_filters sort_values c df))"

text \<open>The tests of the steps above on one row, taken together.\<close>

definition inline_row_ok :: "inline_criteria \<Rightarrow> string list \<Rightarrow> 'a insight_row_scheme \<Rightarrow> bool" where
  "inline_row_ok c cols r =
     ((if selected_category c \<noteq> ''All''
       then cell_eq (category r) (Some (selected_category c)) else True) \<and>
      (if selected_product c \<noteq> ''All''
       then cell_eq (product_col r) (Some (selected_product c)) else True) \<and>
      in_range (propensity_score r) (fst (propensity_range c)) (snd (propensity_range c)) \<and>
      (if selected_region c \<noteq> ''All''
       then cell_eq (region r) (Some (selected_region c)) else True) \<and>
      in_range (price_inr r) (fst (price_range c)) (snd (price_range c)) \<and>
      (if selected_gender c \<noteq> ''All''
       then cell_eq (gender r) (Some (selected_gender c)) else True) \<and>
      (if selected_spending c \<noteq> ''All''
       then cell_eq (spending_category r) (Some (selected_spending c)) else True) \<and>
      (if ''Recency'' \<in> set cols
       then (case Recency r of None \<Rightarrow> False | Some v \<Rightarrow> v \<le> of_int (recency_max c))
       else True) \<and>
      (if ''Frequency'' \<in> set cols
       then (case Frequency r of None \<Rightarrow> False | Some v \<Rightarrow> of_int (min_frequency c) \<le> v)
       else True))"

section \<open>Example data\<close>

text \<open>Small frames and selections on which the functions above are evaluated below.\<close>

abbreviation asha :: pred_row where
  "asha \<equiv>
     \<lparr>Recency = Some 5, Frequency = Some 10, Monetary = Some 1000, gender = Some ''F'',
      total_spent = Some 500, customer_id = IdNum 1, name = Some ''Asha'',
      state = Some ''West'', city_name = Some ''Pune'',
      purchased_products_names = Some ''Shampoo, Conditioner'',
      Similarity_Score = Some (9 / 10)\<rparr>"

abbreviation ravi :: pred_row where
  "ravi \<equiv>
     \<lparr>Recency = Some 50, Frequency = Some 5, Monetary = Some 500, gender = Some ''M'',
      total_spent = Some 300, customer_id = IdNum 2, name = Some ''Ravi'',
      state = Some ''East'', city_name = Some ''Kolkata'',
      purchased_products_names = Some ''Soap, Towel'',
      Similarity_Score = Some (1 / 2)\<rparr>"

abbreviation meena :: pred_row where
  "meena \<equiv>
     \<lparr>Recency = Some 100, Frequency = Some 1, Monetary = Some 100, gender = Some ''F'',
      total_spent = Some 120, customer_id = IdNum 3, name = Some ''Meena'',
      state = Some ''West'', city_name = Some ''Mumbai'',
      purchased_products_names = Some ''Brush'',
      Similarity_Score = None\<rparr>"

text \<open>A second row with the identifier and the name of \<open>ravi\<close>.\<close>

abbreviation ravi_again :: pred_row where
  "ravi_again \<equiv>
     \<lparr>Recency = Some 7, Frequency = Some 2, Monetary = Some 80, gender = Some ''M'',
      total_spent = Some 80, customer_id = IdNum 2, name = Some ''Ravi'',
      state = Some ''North'', city_name = Some ''Delhi'',
      purchased_products_names = None,
      Similarity_Score = Some (1 / 4)\<rparr>"


abbreviation example_customers :: "pred_row data_frame" where
  "example_customers \<equiv>
     \<lparr>columns = [''customer_id'', ''name'', ''gender'', ''state'', ''city_name'',
                 ''purchased_products_names'', ''Similarity_Score'', ''total_spent'',
                 ''Recency'', ''Frequency'', ''Monetary''],
      rows = [asha, ravi, meena, ravi_again]\<rparr>"

abbreviation no_filters :: temp_filters where
  "no_filters \<equiv>
     \<lparr>tf_customer_id = Some (IdText ''All''), tf_name = Some (Some ''All''),
      tf_gender = Some (Some ''All''), tf_region = Some (Some ''All''),
      tf_city = Some (Some ''All''), tf_products = Some [], tf_similarity = None,
      tf_spent = None\<rparr>"

abbreviation west_shampoo_or_soap :: temp_filters where
  "west_shampoo_or_soap \<equiv>
     no_filters\<lparr>tf_region := Some (Some ''West''),
                tf_products := Some [''Shampoo'', ''Soap''],
                tf_spent := Some (80, 500)\<rparr>"

abbreviation fresh_session :: session_state where
  "fresh_session \<equiv>
     \<lparr>temp_filters = no_filters, last_selected_id = None, last_selected_name = None\<rparr>"

abbreviation shampoo_offer :: insight_row where
  "shampoo_offer \<equiv>
     \<lparr>Recency = Some 5, Frequency = Some 10, Monetary = Some 1000, gender = Some ''F'',
      total_spent = Some 500, category = Some ''Hair'', product_col = Some ''Shampoo'',
      propensity_score = Some (4 / 10), region = Some ''West'', city = Some ''Pune'',
      price_inr = Some 99, total_transactions = Some 4,
      embedding_similarity = Some (1 / 2), propensity_category = Some ''Medium'',
      spending_category = Some ''High Spender'', engagement_score = Finite (61 / 100)\<rparr>"

abbreviation soap_offer :: insight_row where
  "soap_offer \<equiv>
     \<lparr>Recency = Some 50, Frequency = Some 5, Monetary = Some 500, gender = Some ''M'',
      total_spent = Some 300, category = Some ''Bath'', product_col = Some ''Soap'',
      propensity_score = Some (9 / 10), region = Some ''East'', city = Some ''Kolkata'',
      price_inr = Some 40, total_transactions = Some 2,
      embedding_similarity = Some (1 / 2), propensity_category = Some ''High'',
      spending_category = Some ''Medium Spender'', engagement_score = Finite (66 / 100)\<rparr>"

abbreviation conditioner_offer :: insight_row where
  "conditioner_offer \<equiv>
     \<lparr>Recency = Some 100, Frequency = Some 1, Monetary = Some 100, gender = Some ''F'',
      total_spent = Some 120, category = Some ''Hair'', product_col = Some ''Conditioner'',
      propensity_score = Some (8 / 10), region = Some ''West'', city = Some ''Mumbai'',
      price_inr = Some 150, total_transactions = Some 1,
      embedding_similarity = Some (1 / 2), propensity_category = Some ''High'',
      spending_category = Some ''Low Spender'', engagement_score = Finite (109 / 200)\<rparr>"

abbreviation example_insights :: "insight_row data_frame" where
  "example_insights \<equiv>
     \<lparr>columns = [''customer_id'', ''category'', ''product'', ''propensity_score'', ''region'',
                 ''city'', ''gender'', ''price_inr'', ''total_spent'', ''total_transactions'',
                 ''embedding_similarity'', ''propensity_category'', ''spending_category'',
                 ''engagement_score'', ''Recency'', ''Frequency'', ''Monetary''],
      rows = [shampoo_offer, soap_offer, conditioner_offer]\<rparr>"

text \<open>Three customers without a transaction.\<close>

abbreviation idle_customers :: "insight_row list" where
  "idle_customers \<equiv>
     [shampoo_offer\<lparr>total_spent := Some 100, total_transactions := Some 0\<rparr>,
      soap_offer\<lparr>total_spent := Some 200, total_transactions := Some 0\<rparr>,
      conditioner_offer\<lparr>total_spent := Some 300, total_transactions := Some 0\<rparr>]"

abbreviation hair_in_the_west :: inline_criteria where
  "hair_in_the_west \<equiv>
     \<lparr>selected_category = ''Hair'', selected_product = ''All'', propensity_range = (0, 1),
      selected_region = ''West'', price_range = (40, 150), selected_gender = ''All'',
      selected_spending = ''All'', recency_max = 100, min_frequency = 0, top_n = 100\<rparr>"


section \<open>Properties of the binning and scoring\<close>

lemma those_Some_map: "those xs = Some ys \<Longrightarrow> xs = map Some ys"
  by (induction xs arbitrary: ys) (auto split: option.splits)

lemma astype_int_Inr: "astype_int xs = Inr ys \<Longrightarrow> xs = map Some ys"
  by (auto simp: astype_int_def split: option.splits dest: those_Some_map)

lemma searchsorted_left_le: "searchsorted_left bins v \<le> length bins"
  by (simp add: searchsorted_left_def length_takeWhile_le)

lemma cut_one_label:
  assumes "cut_one bins labels il x = Some l"
    and "int (length labels) = int (length bins) - 1"
  shows "l \<in> set labels"
proof -
  from assms(1) obtain v ids where x: "x = Some v"
    and ids: "ids = (if il \<and> (case bins of [] \<Rightarrow> False | b # _ \<Rightarrow> v = b) then 1
                     else searchsorted_left bins v)"
    and ne: "ids \<noteq> length bins" "ids \<noteq> 0" and l: "l = labels ! (ids - 1)"
    by (auto simp: cut_one_def Let_def split: option.splits if_splits)
  have "ids \<le> length bins"
    using ids searchsorted_left_le [of bins v] by (auto split: list.splits)
  with ne assms(2) have "ids - 1 < length labels" by linarith
  with l show ?thesis by simp
qed

lemma bins_to_cuts_Inr:
  assumes "bins_to_cuts xs bins0 labels il dup = Inr ls"
  shows "length ls = length xs" and "Some l \<in> set ls \<Longrightarrow> l \<in> set labels"
proof -
  from assms obtain bins where len: "int (length labels) = int (length bins) - 1"
    and ls: "ls = map (cut_one bins labels il) xs"
    by (auto simp: bins_to_cuts_def Let_def split: if_splits)
  show "length ls = length xs" using ls by simp
  show "l \<in> set labels" if "Some l \<in> set ls"
  proof -
    from that ls obtain x where "cut_one bins labels il x = Some l" by auto
    then show ?thesis using len by (rule cut_one_label)
  qed
qed

lemma qcut_Inr:
  assumes "qcut xs q labels dup = Inr ls"
  shows "length ls = length xs" and "Some l \<in> set ls \<Longrightarrow> l \<in> set labels"
proof -
  from assms obtain bins0 where b: "bins_to_cuts xs bins0 labels True dup = Inr ls"
    by (auto simp: qcut_def Let_def split: if_splits)
  show "length ls = length xs" using b by (rule bins_to_cuts_Inr(1))
  show "l \<in> set labels" if "Some l \<in> set ls" using b that by (rule bins_to_cuts_Inr(2))
qed

lemma rank_first_length: "length (rank_first xs) = length xs"
  by (simp add: rank_first_def)

lemma segment_customer_table:
  "segment_customer 10 = ''Champions'' \<and> segment_customer 9 = ''Loyal Customers'' \<and>
   segment_customer 5 = ''At Risk'' \<and> segment_customer 4 = ''Lost''"
  by (simp add: segment_customer_def)

lemma score_row_props:
  assumes "r \<in> {1, 2, 3, 4}" "f \<in> {1, 2, 3, 4}" "m \<in> {1, 2, 3, 4}"
  shows "R_Score (score_row r f m) = r \<and> F_Score (score_row r f m) = f \<and> M_Score (score_row r f m) = m
    \<and> RFM_Score (score_row r f m) = r + f + m \<and> 3 \<le> RFM_Score (score_row r f m) \<and> RFM_Score (score_row r f m) \<le> 12
    \<and> Segment (score_row r f m) = segment_customer (RFM_Score (score_row r f m))"
  using assms by (auto simp: score_row_def)

text \<open>
  Claim C1. Whenever the RFM scoring of a table succeeds, every input row is scored, each of
  R_Score, F_Score and M_Score is one of 1, 2, 3, 4, RFM_Score is their sum and lies between
  3 and 12, and Segment follows the threshold table in priority order; at the boundaries,
  10 gives Champions, 9 Loyal Customers, 5 At Risk and 4 Lost.
\<close>

theorem rfm_scores_ranges_and_segments:
  assumes ok: "show_rfm_analysis rfm_data = Inr scored"
  shows "map fst scored = rfm_data \<and>
    (\<forall>s \<in> set (map snd scored).
       R_Score s \<in> {1, 2, 3, 4} \<and> F_Score s \<in> {1, 2, 3, 4} \<and> M_Score s \<in> {1, 2, 3, 4} \<and>
       RFM_Score s = R_Score s + F_Score s + M_Score s \<and>
       3 \<le> RFM_Score s \<and> RFM_Score s \<le> 12 \<and>
       Segment s =
         (if RFM_Score s \<ge> 10 then ''Champions''
          else if RFM_Score s \<ge> 8 then ''Loyal Customers''
          else if RFM_Score s \<ge> 6 then ''Potential Loyalists''
          else if RFM_Score s \<ge> 5 then ''At Risk''
          else ''Lost'')) \<and>
    segment_customer 10 = ''Champions'' \<and> segment_customer 9 = ''Loyal Customers'' \<and>
    segment_customer 5 = ''At Risk'' \<and> segment_customer 4 = ''Lost''"
proof (cases "rfm_data = []")
  case True
  with ok show ?thesis by (auto simp: show_rfm_analysis_def segment_customer_def)
next
  case False
  with ok obtain rc fc mc rs fs ms where
    qr: "qcut (map Recency rfm_data) 4 [4, 3, 2, 1 :: int] Raise = Inr rc" and
    qf: "qcut (rank_first (map Frequency rfm_data)) 4 [1, 2, 3, 4 :: int] Raise = Inr fc" and
    qm: "qcut (map Monetary rfm_data) 4 [1, 2, 3, 4 :: int] Raise = Inr mc" and
    ar: "astype_int rc = Inr rs" and af: "astype_int fc = Inr fs" and am: "astype_int mc = Inr ms" and
    sc: "scored = zip rfm_data (map (\<lambda>(r, f, m). score_row r f m) (zip rs (zip fs ms)))"
    by (auto simp: show_rfm_analysis_def split: sum.splits)
  have rc: "rc = map Some rs" and fc: "fc = map Some fs" and mc: "mc = map Some ms"
    using ar af am by (auto dest: astype_int_Inr)
  have lr: "length rs = length rfm_data" using qcut_Inr(1) [OF qr] rc by simp
  have lf: "length fs = length rfm_data"
    using qcut_Inr(1) [OF qf] fc by (simp add: rank_first_length)
  have lm: "length ms = length rfm_data" using qcut_Inr(1) [OF qm] mc by simp
  have rs: "r \<in> {1, 2, 3, 4}" if "r \<in> set rs" for r
    using qcut_Inr(2) [OF qr, of r] that rc by auto
  have fs: "f \<in> {1, 2, 3, 4}" if "f \<in> set fs" for f
    using qcut_Inr(2) [OF qf, of f] that fc by auto
  have ms: "m \<in> {1, 2, 3, 4}" if "m \<in> set ms" for m
    using qcut_Inr(2) [OF qm, of m] that mc by auto
  have fst: "map fst scored = rfm_data"
    using sc lr lf lm by simp
  have each: "R_Score s \<in> {1, 2, 3, 4} \<and> F_Score s \<in> {1, 2, 3, 4} \<and> M_Score s \<in> {1, 2, 3, 4} \<and>
       RFM_Score s = R_Score s + F_Score s + M_Score s \<and>
       3 \<le> RFM_Score s \<and> RFM_Score s \<le> 12 \<and>
       Segment s = segment_customer (RFM_Score s)" if "s \<in> set (map snd scored)" for s
  proof -
    from that sc lr lf lm have "s \<in> set (map (\<lambda>(r, f, m). score_row r f m) (zip rs (zip fs ms)))"
      by simp
    then obtain r f m where s: "s = score_row r f m" and mem: "(r, f, m) \<in> set (zip rs (zip fs ms))"
      by auto
    from mem have "r \<in> set rs" "f \<in> set fs" "m \<in> set ms"
      by (auto dest: set_zip_leftD set_zip_rightD)
    then have "r \<in> {1, 2, 3, 4}" "f \<in> {1, 2, 3, 4}" "m \<in> {1, 2, 3, 4}"
      using rs fs ms by blast+
    then show ?thesis unfolding s using score_row_props [of r f m] by simp
  qed
  have "\<forall>s \<in> set (map snd scored).
       R_Score s \<in> {1, 2, 3, 4} \<and> F_Score s \<in> {1, 2, 3, 4} \<and> M_Score s \<in> {1, 2, 3, 4} \<and>
       RFM_Score s = R_Score s + F_Score s + M_Score s \<and>
       3 \<le> RFM_Score s \<and> RFM_Score s \<le> 12 \<and>
       Segment s =
         (if RFM_Score s \<ge> 10 then ''Champions''
          else if RFM_Score s \<ge> 8 then ''Loyal Customers''
          else if RFM_Score s \<ge> 6 then ''Potential Loyalists''
          else if RFM_Score s \<ge> 5 then ''At Risk''
          else ''Lost'')"
    using each unfolding segment_customer_def by blast
  with fst segment_customer_table show ?thesis by blast
qed

theorem rfm_scores_witness:
  "show_rfm_analysis
     [\<lparr>Recency = Some 5, Frequency = Some 10, Monetary = Some 1000\<rparr>,
      \<lparr>Recency = Some 50, Frequency = Some 5, Monetary = Some 500\<rparr>,
      \<lparr>Recency = Some 100, Frequency = Some 1, Monetary = Some 100\<rparr>]
   = Inr [(\<lparr>Recency = Some 5, Frequency = Some 10, Monetary = Some 1000\<rparr>,
           \<lparr>R_Score = 4, F_Score = 4, M_Score = 4, RFM_Score = 12, Segment = ''Champions''\<rparr>),
          (\<lparr>Recency = Some 50, Frequency = Some 5, Monetary = Some 500\<rparr>,
           \<lparr>R_Score = 3, F_Score = 2, M_Score = 2, RFM_Score = 7, Segment = ''Potential Loyalists''\<rparr>),
          (\<lparr>Recency = Some 100, Frequency = Some 1, Monetary = Some 100\<rparr>,
           \<lparr>R_Score = 1, F_Score = 1, M_Score = 1, RFM_Score = 3, Segment = ''Lost''\<rparr>)]
   \<and> R_Score \<lparr>R_Score = 3, F_Score = 2, M_Score = 2, RFM_Score = 7,
                Segment = ''Potential Loyalists''\<rparr> \<in> {1, 2, 3, 4}
   \<and> segment_customer 9 = ''Loyal Customers''"
proof -
  have ok: "show_rfm_analysis
     [\<lparr>Recency = Some 5, Frequency = Some 10, Monetary = Some 1000\<rparr>,
      \<lparr>Recency = Some 50, Frequency = Some 5, Monetary = Some 500\<rparr>,
      \<lparr>Recency = Some 100, Frequency = Some 1, Monetary = Some 100\<rparr>]
   = Inr [(\<lparr>Recency = Some 5, Frequency = Some 10, Monetary = Some 1000\<rparr>,
           \<lparr>R_Score = 4, F_Score = 4, M_Score = 4, RFM_Score = 12, Segment = ''Champions''\<rparr>),
          (\<lparr>Recency = Some 50, Frequency = Some 5, Monetary = Some 500\<rparr>,
           \<lparr>R_Score = 3, F_Score = 2, M_Score = 2, RFM_Score = 7, Segment = ''Potential Loyalists''\<rparr>),
          (\<lparr>Recency = Some 100, Frequency = Some 1, Monetary = Some 100\<rparr>,
           \<lparr>R_Score = 1, F_Score = 1, M_Score = 1, RFM_Score = 3, Segment = ''Lost''\<rparr>)]"
    by code_simp
  from rfm_scores_ranges_and_segments [OF ok] ok show ?thesis by simp
qed

lemma propensity_categories_map:
  "propensity_categories ps =
     Inr (map (cut_one [0, 3 / 10, 6 / 10, 1] [''Low'', ''Medium'', ''High''] False) ps)"
  by (simp add: propensity_categories_def pd_cut_def bins_to_cuts_def unique_def)

text \<open>
  Claim C6, as amended. The bins of \<open>pd.cut\<close> are closed on the right: for a score in
  (0, 1] the category is Low exactly on (0, 0.3], Medium exactly on (0.3, 0.6] and High
  exactly on (0.6, 1].
\<close>

theorem propensity_category_right_closed:
  assumes "i < length ps" and "ps ! i = Some p" and "0 < p" and "p \<le> 1"
  shows "\<exists>cs. propensity_categories ps = Inr cs \<and> length cs = length ps \<and>
     (cs ! i = Some ''Low'' \<longleftrightarrow> p \<le> 3 / 10) \<and>
     (cs ! i = Some ''Medium'' \<longleftrightarrow> 3 / 10 < p \<and> p \<le> 6 / 10) \<and>
     (cs ! i = Some ''High'' \<longleftrightarrow> 6 / 10 < p)"
proof -
  let ?cut = "cut_one [0, 3 / 10, 6 / 10, 1] [''Low'', ''Medium'', ''High''] False"
  have c: "?cut (Some p) =
      (if p \<le> 3 / 10 then Some ''Low'' else if p \<le> 6 / 10 then Some ''Medium'' else Some ''High'')"
    using assms(3,4) by (simp add: cut_one_def searchsorted_left_def)
  have "map ?cut ps ! i = ?cut (Some p)" using assms(1,2) by simp
  with c show ?thesis
    unfolding propensity_categories_map by (intro exI [of _ "map ?cut ps"]) auto
qed

theorem propensity_category_witness:
  "propensity_categories [Some (1 / 2), Some (6 / 10), Some (61 / 100)]
     = Inr [Some ''Medium'', Some ''Medium'', Some ''High'']"
proof -
  have "\<exists>cs. propensity_categories [Some (1 / 2), Some (6 / 10), Some (61 / 100)] = Inr cs \<and>
      length cs = length [Some (1 / 2), Some (6 / 10), Some (61 / 100 :: rat)] \<and>
     (cs ! 1 = Some ''Low'' \<longleftrightarrow> (6 / 10 :: rat) \<le> 3 / 10) \<and>
     (cs ! 1 = Some ''Medium'' \<longleftrightarrow> 3 / 10 < (6 / 10 :: rat) \<and> (6 / 10 :: rat) \<le> 6 / 10) \<and>
     (cs ! 1 = Some ''High'' \<longleftrightarrow> 6 / 10 < (6 / 10 :: rat))"
    by (rule propensity_category_right_closed) simp_all
  then show ?thesis
    by (simp add: propensity_categories_map cut_one_def searchsorted_left_def)
qed

text \<open>Against claim C6 as stated: a score of exactly 0.3 is Low, not Medium, and a score
  of exactly 0 gets no category.\<close>

theorem propensity_category_boundary_counterexample:
  "propensity_categories [Some 0, Some (3 / 10)] = Inr [None, Some ''Low'']"
  by (simp add: propensity_categories_map cut_one_def searchsorted_left_def)

text \<open>
  Claim C7 at degenerate inputs. Five customers with the same Recency make the quartile edges
  of Recency coincide, and \<open>qcut\<close> without \<open>duplicates="drop"\<close> raises. For the
  spending tertiles the duplicate edges are dropped, and then the three labels no longer fit
  the remaining bins, so \<open>qcut\<close> raises as well.
\<close>

theorem degenerate_distribution_raises:
  "show_rfm_analysis
     [\<lparr>Recency = Some 30, Frequency = Some 1, Monetary = Some 100\<rparr>,
      \<lparr>Recency = Some 30, Frequency = Some 2, Monetary = Some 200\<rparr>,
      \<lparr>Recency = Some 30, Frequency = Some 3, Monetary = Some 300\<rparr>,
      \<lparr>Recency = Some 30, Frequency = Some 4, Monetary = Some 400\<rparr>,
      \<lparr>Recency = Some 30, Frequency = Some 5, Monetary = Some 500\<rparr>] = Inl ValueError_bin_edges
   \<and> spending_categories [Some 250, Some 250, Some 250, Some 250] = Inl ValueError_bin_labels
   \<and> spending_categories [Some 100, Some 100, Some 100, Some 900] = Inl ValueError_bin_labels"
  by code_simp

subsection \<open>When the quantile cuts fail and when they succeed\<close>

lemma unique_from_length: "length (unique_from seen xs) \<le> length xs"
  by (induction xs arbitrary: seen) (auto intro: le_SucI)

lemma unique_from_full:
  "length (unique_from seen xs) = length xs \<longleftrightarrow> distinct xs \<and> set xs \<inter> set seen = {}"
proof (induction xs arbitrary: seen)
  case Nil
  then show ?case by simp
next
  case (Cons x xs)
  show ?case
  proof (cases "x \<in> set seen")
    case True
    with unique_from_length [of seen xs] show ?thesis by auto
  next
    case False
    with Cons.IH [of "x # seen"] show ?thesis by auto
  qed
qed

lemma unique_collapses: "length (unique xs) < length xs \<longleftrightarrow> \<not> distinct xs"
  using unique_from_full [of "[]" xs] unique_from_length [of "[]" xs]
  by (auto simp: unique_def)

lemma bins_to_cuts_Raise:
  "bins_to_cuts xs bins labels il Raise =
     (if \<not> distinct bins \<and> length bins \<noteq> 2 then Inl ValueError_bin_edges
      else if int (length labels) \<noteq> int (length bins) - 1 then Inl ValueError_bin_labels
      else Inr (map (cut_one bins labels il) xs))"
  by (simp add: bins_to_cuts_def Let_def unique_collapses)

lemma unique_from_seen_replicate: "x \<in> set seen \<Longrightarrow> unique_from seen (replicate n x) = []"
  by (induction n) simp_all

lemma unique_replicate: "unique (replicate (Suc n) x) = [x]"
  by (simp add: unique_def unique_from_seen_replicate)

lemma quantile_sorted_replicate:
  assumes "0 < n" and "k \<le> q" and "0 < q"
  shows "quantile_sorted (replicate n v) k q = v"
proof -
  have "k * (n - 1) \<le> q * (n - 1)" using assms(2) by simp
  then have "k * (n - 1) div q \<le> n - 1"
    using assms(3) by (metis div_le_mono nonzero_mult_div_cancel_left less_numeral_extra(3))
  then have "k * (n - 1) div q < n" using assms(1) by simp
  then show ?thesis by (simp add: quantile_sorted_def Let_def)
qed

lemma quantiles_replicate:
  assumes "0 < n" and "0 < q"
  shows "quantiles (replicate n v) q = replicate (Suc q) v"
proof -
  have srt: "sort (replicate n v) = replicate n v"
    by (simp add: sorted_sort_id sorted_replicate)
  have "map (\<lambda>k. quantile_sorted (replicate n v) k q) [0..<Suc q] = map (\<lambda>k. v) [0..<Suc q]"
    by (rule map_cong [OF refl]) (use assms in \<open>auto simp: quantile_sorted_replicate\<close>)
  then show ?thesis
    unfolding quantiles_def srt by (simp add: map_replicate_const)
qed

lemma map_filter_all_same:
  assumes "\<forall>x \<in> set xs. x = Some v"
  shows "List.map_filter id xs = replicate (length xs) v"
  using assms by (induction xs) (simp_all add: List.map_filter_simps)

lemma qcut_identical:
  assumes "xs \<noteq> []" and "\<forall>x \<in> set xs. x = Some v" and "2 \<le> q" and "labels \<noteq> []"
  shows "qcut xs q labels Raise = Inl ValueError_bin_edges"
    and "qcut xs q labels Drop = Inl ValueError_bin_labels"
proof -
  from assms(1) have n: "0 < length xs" by simp
  have valid: "List.map_filter id xs = replicate (length xs) v"
    using assms(2) by (rule map_filter_all_same)
  have ne: "replicate (length xs) v \<noteq> []" using n by simp
  have qs: "quantiles (replicate (length xs) v) q = replicate (Suc q) v"
    using n assms(3) by (intro quantiles_replicate) auto
  from assms(3) obtain m where m: "q = Suc m" by (cases q) auto
  have nd: "\<not> distinct (replicate (Suc q) v)" unfolding m by simp
  show "qcut xs q labels Raise = Inl ValueError_bin_edges"
    using ne nd assms(3) by (simp add: qcut_def valid qs bins_to_cuts_Raise del: replicate_Suc)
  show "qcut xs q labels Drop = Inl ValueError_bin_labels"
    using ne assms(3,4)
    by (simp add: qcut_def valid qs bins_to_cuts_def unique_replicate Let_def del: replicate_Suc)
qed

text \<open>
  The failure is systematic: whenever all customers share one Recency value the scoring
  raises, and whenever all rows share one total_spent value the preprocessing raises.
\<close>

lemma identical_recency_raises:
  assumes "rfm_data \<noteq> []" and "\<forall>r \<in> set rfm_data. Recency r = Some v"
  shows "show_rfm_analysis rfm_data = Inl ValueError_bin_edges"
proof -
  have "qcut (map Recency rfm_data) 4 [4, 3, 2, 1 :: int] Raise = Inl ValueError_bin_edges"
    using assms by (intro qcut_identical) auto
  with assms(1) show ?thesis by (simp add: show_rfm_analysis_def)
qed

lemma identical_total_spent_raises:
  assumes "df \<noteq> []" and "\<forall>r \<in> set df. total_spent r = Some v"
  shows "preprocess_prediction_data df = Inl ValueError_bin_labels"
proof -
  let ?df = "map (\<lambda>r. r\<lparr>region := fillna ''Unknown'' (region r),
                         city := fillna ''Unknown'' (city r),
                         gender := fillna ''Unknown'' (gender r)\<rparr>) df"
  have "spending_categories (map total_spent ?df) = Inl ValueError_bin_labels"
    unfolding spending_categories_def using assms by (intro qcut_identical) auto
  then show ?thesis
    by (simp add: preprocess_prediction_data_def Let_def propensity_categories_map)
qed

lemma quantile_sorted_first:
  assumes "0 < q"
  shows "quantile_sorted s 0 q = s ! 0"
  using assms by (simp add: quantile_sorted_def Let_def)

lemma quantile_sorted_last:
  assumes "0 < q"
  shows "quantile_sorted s q q = s ! (length s - 1)"
  using assms by (simp add: quantile_sorted_def Let_def)

lemma quantiles_bounds:
  assumes "v \<in> set vs" and "0 < q"
  shows "length (quantiles vs q) = Suc q"
    and "hd (quantiles vs q) \<le> v" and "v \<le> last (quantiles vs q)"
proof -
  let ?s = "sort vs"
  show "length (quantiles vs q) = Suc q" by (simp add: quantiles_def)
  from assms(1) have "v \<in> set ?s" by simp
  then obtain i where i: "i < length ?s" "?s ! i = v" by (metis in_set_conv_nth)
  have "hd (quantiles vs q) = quantile_sorted ?s 0 q"
    unfolding quantiles_def by (simp add: hd_map upt_conv_Cons del: upt_Suc)
  also have "\<dots> = ?s ! 0" using assms(2) by (rule quantile_sorted_first)
  also have "\<dots> \<le> ?s ! i" using i(1) by (intro sorted_nth_mono) auto
  finally show "hd (quantiles vs q) \<le> v" using i(2) by simp
  have "last (quantiles vs q) = quantile_sorted ?s q q"
    unfolding quantiles_def by simp
  also have "\<dots> = ?s ! (length ?s - 1)" using assms(2) by (rule quantile_sorted_last)
  finally have "last (quantiles vs q) = ?s ! (length ?s - 1)" .
  moreover have "?s ! i \<le> ?s ! (length ?s - 1)" using i(1) by (intro sorted_nth_mono) auto
  ultimately show "v \<le> last (quantiles vs q)" using i(2) by simp
qed

lemma cut_one_lowest_Some:
  assumes "2 \<le> length bins" and "hd bins \<le> v" and "v \<le> last bins"
  shows "\<exists>l. cut_one bins labels True (Some v) = Some l"
proof -
  from assms(1) obtain b bs where bins: "bins = b # bs" and bs: "bs \<noteq> []"
    by (cases bins) (auto simp: Suc_le_eq)
  show ?thesis
  proof (cases "v = b")
    case True
    with bins bs show ?thesis by (simp add: cut_one_def)
  next
    case False
    with assms(2) bins have lt: "b < v" by simp
    have "\<not> (\<forall>x \<in> set bins. x < v)"
      using assms(3) bins by (metis last_in_set list.distinct(1) not_le)
    then have "dropWhile (\<lambda>x. x < v) bins \<noteq> []" by (simp add: dropWhile_eq_Nil_conv)
    moreover have "length (takeWhile (\<lambda>x. x < v) bins) + length (dropWhile (\<lambda>x. x < v) bins)
        = length bins"
      by (metis length_append takeWhile_dropWhile_id)
    ultimately have "searchsorted_left bins v \<noteq> length bins"
      by (auto simp: searchsorted_left_def)
    moreover have "searchsorted_left bins v \<noteq> 0"
      using lt bins by (simp add: searchsorted_left_def)
    ultimately show ?thesis using False bins by (simp add: cut_one_def Let_def)
  qed
qed

lemma map_filter_Some: "List.map_filter id (map Some vs) = vs"
  by (induction vs) (simp_all add: List.map_filter_simps)

lemma qcut_succeeds:
  assumes "vs \<noteq> []" and "0 < q" and "distinct (quantiles vs q)" and "length labels = q"
  shows "\<exists>ls. qcut (map Some vs) q labels Raise = Inr (map Some ls)"
proof -
  let ?bins = "quantiles vs q"
  have len: "length ?bins = Suc q" by (simp add: quantiles_def)
  have each: "\<exists>l. cut_one ?bins labels True (Some v) = Some l" if "v \<in> set vs" for v
    using quantiles_bounds [OF that assms(2)] assms(2)
    by (intro cut_one_lowest_Some) auto
  have eq: "map (cut_one ?bins labels True) (map Some vs)
      = map Some (map (\<lambda>v. the (cut_one ?bins labels True (Some v))) vs)"
    using each by (auto simp: comp_def)
  have "qcut (map Some vs) q labels Raise = Inr (map (cut_one ?bins labels True) (map Some vs))"
    using assms by (simp add: qcut_def map_filter_Some bins_to_cuts_Raise len)
  then have "qcut (map Some vs) q labels Raise
      = Inr (map Some (map (\<lambda>v. the (cut_one ?bins labels True (Some v))) vs))"
    unfolding eq .
  then show ?thesis by (rule exI)
qed

lemma those_map_Some: "those (map Some ys) = Some ys"
  by (induction ys) simp_all

lemma all_Some_map:
  "\<forall>x \<in> set ys. x \<noteq> None \<Longrightarrow> ys = map Some (List.map_filter id ys)"
  by (induction ys) (auto simp: List.map_filter_simps)

lemma rank_first_Some:
  "rank_first (map Some vs) = map Some (List.map_filter id (rank_first (map Some vs)))"
  by (rule all_Some_map) (auto simp: rank_first_def)

text \<open>
  Conversely, on a table without missing values the scoring returns as soon as the quartile
  edges of Recency, of the Frequency ranks and of Monetary are pairwise different.
\<close>

lemma rfm_scoring_succeeds:
  assumes "rfm_data \<noteq> []"
    and "map Recency rfm_data = map Some rs"
    and "map Frequency rfm_data = map Some fs"
    and "map Monetary rfm_data = map Some ms"
    and "distinct (quantiles rs 4)"
    and "distinct (quantiles (List.map_filter id (rank_first (map Some fs))) 4)"
    and "distinct (quantiles ms 4)"
  shows "\<exists>scored. show_rfm_analysis rfm_data = Inr scored"
proof -
  let ?ranks = "List.map_filter id (rank_first (map Some fs))"
  from assms(1,2) have rs: "rs \<noteq> []" by auto
  from assms(1,4) have ms: "ms \<noteq> []" by auto
  from assms(1,3) have "rank_first (map Some fs) \<noteq> []"
    by (auto simp: rank_first_def)
  with rank_first_Some [of fs] have ranks: "?ranks \<noteq> []" by auto
  from qcut_succeeds [OF rs _ assms(5), of "[4, 3, 2, 1 :: int]"]
  obtain rl where rl: "qcut (map Recency rfm_data) 4 [4, 3, 2, 1 :: int] Raise = Inr (map Some rl)"
    unfolding assms(2) by auto
  from qcut_succeeds [OF ranks _ assms(6), of "[1, 2, 3, 4 :: int]"]
  obtain fl where fl: "qcut (rank_first (map Frequency rfm_data)) 4 [1, 2, 3, 4 :: int] Raise
      = Inr (map Some fl)"
    unfolding assms(3) using rank_first_Some [of fs] by auto
  from qcut_succeeds [OF ms _ assms(7), of "[1, 2, 3, 4 :: int]"]
  obtain ml where ml: "qcut (map Monetary rfm_data) 4 [1, 2, 3, 4 :: int] Raise = Inr (map Some ml)"
    unfolding assms(4) by auto
  show ?thesis
    using assms(1) by (simp add: show_rfm_analysis_def rl fl ml astype_int_def those_map_Some)
qed

subsection \<open>Engagement score\<close>

lemma fadd_NaN_right: "fadd x NaN = NaN"
  by (cases x) simp_all

lemma fold_max_zeros: "\<forall>x \<in> set xs. x = 0 \<Longrightarrow> fold max xs (0::rat) = 0"
  by (induction xs) simp_all

lemma map_filter_zeros:
  "\<forall>t \<in> set ts. t = Some (0::rat) \<Longrightarrow> \<forall>x \<in> set (List.map_filter id ts). x = 0"
  by (auto simp: List.map_filter_def)

lemma series_max_zeros:
  assumes "ts \<noteq> []" and "\<forall>t \<in> set ts. t = Some 0"
  shows "series_max ts = Finite 0"
proof -
  have all0: "\<forall>x \<in> set (List.map_filter id ts). x = 0"
    using assms(2) by (rule map_filter_zeros)
  from assms obtain t ts' where "ts = t # ts'" and "t = Some 0" by (cases ts) auto
  then obtain vs where vs: "List.map_filter id ts = 0 # vs"
    by (simp add: List.map_filter_simps)
  with all0 have "fold max vs 0 = 0" by (intro fold_max_zeros) simp
  with vs show ?thesis by (simp add: series_max_def)
qed

lemma engagement_scores_all_zero:
  assumes "\<forall>r \<in> set df. total_transactions r = Some 0"
  shows "transactions_ratio (map total_transactions df) = replicate (length df) NaN \<and>
         engagement_scores df = replicate (length df) NaN"
proof (cases "df = []")
  case True
  then show ?thesis by (simp add: transactions_ratio_def engagement_scores_def)
next
  case False
  let ?ts = "map total_transactions df"
  have "series_max ?ts = Finite 0"
    using False assms by (intro series_max_zeros) auto
  then have "transactions_ratio ?ts = map (\<lambda>t. NaN) ?ts"
    using assms by (auto simp: transactions_ratio_def of_num_def)
  then have ratio: "transactions_ratio ?ts = replicate (length df) NaN"
    by (simp add: map_replicate_const)
  have "engagement_scores df = map (\<lambda>p. NaN) (zip df (replicate (length df) NaN))"
    unfolding engagement_scores_def ratio
    by (rule map_cong) (auto simp: fadd_NaN_right dest!: set_zip_rightD)
  then have "engagement_scores df = replicate (length df) NaN"
    by (simp add: map_replicate_const)
  with ratio show ?thesis by simp
qed

text \<open>
  Claim C5, as amended. Let every row have total_transactions 0. Whenever the tertile
  binning of total_spent that precedes the score succeeds, \<open>preprocess_prediction_data\<close>
  returns: the division by the population maximum raises nothing. It returns every row,
  and on every row the normalised term is 0/0 = NaN and so is engagement_score.
\<close>

theorem engagement_all_zero_transactions_is_nan:
  assumes zero: "\<forall>r \<in> set df. total_transactions r = Some 0"
    and bins: "spending_categories (map total_spent df) = Inr scs"
  shows "\<exists>out. preprocess_prediction_data df = Inr out \<and> length out = length df \<and>
           (\<forall>r \<in> set out. engagement_score r = NaN) \<and>
           transactions_ratio (map total_transactions df) = replicate (length df) NaN"
proof -
  let ?df = "map (\<lambda>r. r\<lparr>region := fillna ''Unknown'' (region r),
                         city := fillna ''Unknown'' (city r),
                         gender := fillna ''Unknown'' (gender r)\<rparr>) df"
  let ?pcs = "map (cut_one [0, 3 / 10, 6 / 10, 1] [''Low'', ''Medium'', ''High''] False)
                (map propensity_score ?df)"
  have spent: "map total_spent ?df = map total_spent df" by simp
  have zero': "\<forall>r \<in> set ?df. total_transactions r = Some 0" using zero by simp
  have es: "engagement_scores ?df = replicate (length df) NaN"
    using engagement_scores_all_zero [OF zero'] by simp
  have len: "length scs = length df"
    using qcut_Inr(1) [OF bins [unfolded spending_categories_def]] by simp
  define out where "out =
    map (\<lambda>(r, pc, sc, es). r\<lparr>propensity_category := pc, spending_category := sc,
                               engagement_score := es\<rparr>)
      (zip ?df (zip ?pcs (zip scs (engagement_scores ?df))))"
  have run: "preprocess_prediction_data df = Inr out"
    unfolding preprocess_prediction_data_def Let_def propensity_categories_map spent bins out_def
    by simp
  have length: "length out = length df" by (simp add: out_def len es)
  have nan: "engagement_score r = NaN" if "r \<in> set out" for r
  proof -
    from that obtain r0 pc sc e where
      r: "r = r0\<lparr>propensity_category := pc, spending_category := sc, engagement_score := e\<rparr>"
      and mem: "(r0, pc, sc, e) \<in> set (zip ?df (zip ?pcs (zip scs (engagement_scores ?df))))"
      unfolding out_def by auto
    from mem have "e \<in> set (engagement_scores ?df)"
      by (auto dest!: set_zip_rightD)
    then have "e = NaN" unfolding es by simp
    with r show ?thesis by simp
  qed
  from run length nan engagement_scores_all_zero [OF zero] show ?thesis by blast
qed

theorem engagement_all_zero_transactions_witness:
  "spending_categories (map total_spent idle_customers) =
     Inr [Some ''Low Spender'', Some ''Medium Spender'', Some ''High Spender''] \<and>
   preprocess_prediction_data idle_customers =
     Inr [shampoo_offer\<lparr>total_spent := Some 100, total_transactions := Some 0,
                         propensity_category := Some ''Medium'',
                         spending_category := Some ''Low Spender'', engagement_score := NaN\<rparr>,
          soap_offer\<lparr>total_spent := Some 200, total_transactions := Some 0,
                      propensity_category := Some ''High'',
                      spending_category := Some ''Medium Spender'', engagement_score := NaN\<rparr>,
          conditioner_offer\<lparr>total_spent := Some 300, total_transactions := Some 0,
                             propensity_category := Some ''High'',
                             spending_category := Some ''High Spender'', engagement_score := NaN\<rparr>]"
proof -
  have zero: "\<forall>r \<in> set idle_customers. total_transactions r = Some 0" by simp
  have bins: "spending_categories (map total_spent idle_customers) =
     Inr [Some ''Low Spender'', Some ''Medium Spender'', Some ''High Spender'']"
    by code_simp
  have run: "preprocess_prediction_data idle_customers =
     Inr [shampoo_offer\<lparr>total_spent := Some 100, total_transactions := Some 0,
                         propensity_category := Some ''Medium'',
                         spending_category := Some ''Low Spender'', engagement_score := NaN\<rparr>,
          soap_offer\<lparr>total_spent := Some 200, total_transactions := Some 0,
                      propensity_category := Some ''High'',
                      spending_category := Some ''Medium Spender'', engagement_score := NaN\<rparr>,
          conditioner_offer\<lparr>total_spent := Some 300, total_transactions := Some 0,
                             propensity_category := Some ''High'',
                             spending_category := Some ''High Spender'', engagement_score := NaN\<rparr>]"
    by code_simp
  from engagement_all_zero_transactions_is_nan [OF zero bins] bins run show ?thesis by simp
qed

text \<open>Against claim C5 as stated: with two customers and no transactions the normalised
  term is NaN, not 0.\<close>

theorem engagement_zero_transactions_counterexample:
  "transactions_ratio [Some 0, Some 0] = [NaN, NaN]"
  by (simp add: transactions_ratio_def series_max_def of_num_def)

section \<open>Persona classification\<close>

lemma is_substring_iff: "is_substring p s \<longleftrightarrow> (\<exists>u v. s = u @ p @ v)"
proof (induction s)
  case Nil
  then show ?case by auto
next
  case (Cons c s)
  show ?case
  proof
    assume "is_substring p (c # s)"
    then consider "prefix p (c # s)" | "is_substring p s" by auto
    then show "\<exists>u v. c # s = u @ p @ v"
    proof cases
      case 1
      then obtain v where "c # s = p @ v" by (auto simp: prefix_def)
      then have "c # s = [] @ p @ v" by simp
      then show ?thesis by blast
    next
      case 2
      with Cons.IH obtain u v where "s = u @ p @ v" by blast
      then have "c # s = (c # u) @ p @ v" by simp
      then show ?thesis by blast
    qed
  next
    assume "\<exists>u v. c # s = u @ p @ v"
    then obtain u v where uv: "c # s = u @ p @ v" by blast
    show "is_substring p (c # s)"
    proof (cases u)
      case Nil
      with uv have "prefix p (c # s)" by (simp add: prefix_def)
      then show ?thesis by simp
    next
      case (Cons a u')
      with uv have "s = u' @ p @ v" by simp
      with Cons.IH have "is_substring p s" by blast
      then show ?thesis by simp
    qed
  qed
qed

lemma first_label_find:
  "first_label ps out =
     (case find (\<lambda>p. is_substring (lower p) (lower out)) ps of
        None \<Rightarrow> ''Unclassified'' | Some p \<Rightarrow> p)"
  by (induction ps) simp_all

lemma first_label_split:
  "(\<exists>before after. ps = before @ first_label ps out # after \<and>
       is_substring (lower (first_label ps out)) (lower out) \<and>
       (\<forall>p \<in> set before. \<not> is_substring (lower p) (lower out))) \<or>
   (first_label ps out = ''Unclassified'' \<and>
    (\<forall>p \<in> set ps. \<not> is_substring (lower p) (lower out)))"
proof (induction ps)
  case Nil
  then show ?case by simp
next
  case (Cons q ps)
  show ?case
  proof (cases "is_substring (lower q) (lower out)")
    case True
    then have "q # ps = [] @ first_label (q # ps) out # ps \<and>
        is_substring (lower (first_label (q # ps) out)) (lower out) \<and>
        (\<forall>p \<in> set []. \<not> is_substring (lower p) (lower out))"
      by simp
    then show ?thesis by blast
  next
    case False
    from Cons.IH show ?thesis
    proof
      assume "\<exists>before after. ps = before @ first_label ps out # after \<and>
         is_substring (lower (first_label ps out)) (lower out) \<and>
         (\<forall>p \<in> set before. \<not> is_substring (lower p) (lower out))"
      then obtain before after where ps: "ps = before @ first_label ps out # after"
        and occ: "is_substring (lower (first_label ps out)) (lower out)"
        and no: "\<forall>p \<in> set before. \<not> is_substring (lower p) (lower out)"
        by blast
      from ps have "q # ps = (q # before) @ first_label ps out # after" by simp
      moreover have "\<forall>p \<in> set (q # before). \<not> is_substring (lower p) (lower out)"
        using False no by simp
      ultimately have "q # ps = (q # before) @ first_label (q # ps) out # after \<and>
          is_substring (lower (first_label (q # ps) out)) (lower out) \<and>
          (\<forall>p \<in> set (q # before). \<not> is_substring (lower p) (lower out))"
        using False occ by simp
      then show ?thesis by blast
    next
      assume "first_label ps out = ''Unclassified'' \<and>
        (\<forall>p \<in> set ps. \<not> is_substring (lower p) (lower out))"
      with False show ?thesis by simp
    qed
  qed
qed

text \<open>
  Claim C9, as amended. When the external call returns its output, the result is the first
  label of the persona vocabulary, in the order of the list, that occurs in the output
  without regard to case: the labels before it in the list do not occur. When no label
  occurs the result is Unclassified. When the external call raises, nothing catches the
  error: it leaves \<open>generate_persona\<close>.
\<close>

theorem generate_persona_label_or_propagate:
  "(ollama row = Inr out \<longrightarrow>
      (\<exists>l. generate_persona ollama row = Inr l \<and>
           ((\<exists>before after. persona_labels = before @ l # after \<and>
               (\<exists>u v. lower out = u @ lower l @ v) \<and>
               (\<forall>p \<in> set before. \<not> (\<exists>u v. lower out = u @ lower p @ v))) \<or>
            (l = ''Unclassified'' \<and>
             (\<forall>p \<in> set persona_labels. \<not> (\<exists>u v. lower out = u @ lower p @ v)))))) \<and>
   (ollama row = Inl e \<longrightarrow> generate_persona ollama row = Inl e)"
proof (rule conjI; rule impI)
  assume out: "ollama row = Inr out"
  then have run: "generate_persona ollama row = Inr (first_label persona_labels out)"
    by (simp add: generate_persona_def)
  from first_label_split [of persona_labels out, unfolded is_substring_iff] run
  show "\<exists>l. generate_persona ollama row = Inr l \<and>
           ((\<exists>before after. persona_labels = before @ l # after \<and>
               (\<exists>u v. lower out = u @ lower l @ v) \<and>
               (\<forall>p \<in> set before. \<not> (\<exists>u v. lower out = u @ lower p @ v))) \<or>
            (l = ''Unclassified'' \<and>
             (\<forall>p \<in> set persona_labels. \<not> (\<exists>u v. lower out = u @ lower p @ v))))"
    by blast
next
  assume "ollama row = Inl e"
  then show "generate_persona ollama row = Inl e" by (simp add: generate_persona_def)
qed

theorem generate_persona_witness:
  "generate_persona (\<lambda>r. Inr ''See the loyal customers section'') () = Inr ''Loyal Customers'' \<and>
   generate_persona (\<lambda>r. Inr ''at risk, maybe champions'') () = Inr ''Champions'' \<and>
   (\<exists>u v. lower ''at risk, maybe champions'' = u @ lower ''Champions'' @ v) \<and>
   generate_persona (\<lambda>r. Inr ''I cannot tell.'') () = Inr ''Unclassified'' \<and>
   generate_persona (\<lambda>r. Inl OSError) () = Inl OSError"
proof -
  have a: "generate_persona (\<lambda>r. Inr ''See the loyal customers section'') () = Inr ''Loyal Customers''"
    by code_simp
  have a': "generate_persona (\<lambda>r. Inr ''at risk, maybe champions'') () = Inr ''Champions''"
    by code_simp
  have b: "generate_persona (\<lambda>r. Inr ''I cannot tell.'') () = Inr ''Unclassified''"
    by code_simp
  have ne: "''Champions'' \<noteq> ''Unclassified''" by simp
  from generate_persona_label_or_propagate
    [of "\<lambda>r. Inr ''at risk, maybe champions''" "()" "''at risk, maybe champions''" OSError]
  obtain l where l: "generate_persona (\<lambda>r. Inr ''at risk, maybe champions'') () = Inr l"
    and d: "(\<exists>before after. persona_labels = before @ l # after \<and>
               (\<exists>u v. lower ''at risk, maybe champions'' = u @ lower l @ v) \<and>
               (\<forall>p \<in> set before. \<not> (\<exists>u v. lower ''at risk, maybe champions'' = u @ lower p @ v))) \<or>
            (l = ''Unclassified'' \<and>
             (\<forall>p \<in> set persona_labels. \<not> (\<exists>u v. lower ''at risk, maybe champions'' = u @ lower p @ v)))"
    by blast
  from l a' have "l = ''Champions''" by simp
  with d ne have occ: "\<exists>u v. lower ''at risk, maybe champions'' = u @ lower ''Champions'' @ v"
    by blast
  from generate_persona_label_or_propagate [of "\<lambda>r. Inl OSError" "()" "[]" OSError]
  have c: "generate_persona (\<lambda>r. Inl OSError) () = Inl OSError" by simp
  from a a' occ b c show ?thesis by blast
qed

text \<open>Against claim C9 as stated: a call that cannot start the process does not give
  Unclassified.\<close>

theorem generate_persona_failure_counterexample:
  "generate_persona (\<lambda>r. Inl OSError) () \<noteq> Inr ''Unclassified''"
  by (simp add: generate_persona_def)

section \<open>Synchronised selection\<close>

lemma find_Some_filter: "find P xs = Some r \<Longrightarrow> \<exists>ys. filter P xs = r # ys"
  by (induction xs) (auto split: if_splits)

lemma select_customer_id_specific:
  assumes "tf_customer_id (temp_filters st) \<noteq> Some cid" and "cid \<noteq> IdText ''All''"
    and "find (\<lambda>r. customer_id r = cid) (rows df) = Some rec"
  shows "\<exists>st'. select_customer_id df cid st = Inr (st', True) \<and>
       tf_customer_id (temp_filters st') = Some cid \<and>
       tf_name (temp_filters st') = Some (name rec) \<and>
       tf_gender (temp_filters st') = Some (gender rec) \<and>
       (''state'' \<in> set (columns df) \<longrightarrow> tf_region (temp_filters st') = Some (state rec)) \<and>
       (''city_name'' \<in> set (columns df) \<longrightarrow> tf_city (temp_filters st') = Some (city_name rec))"
proof -
  from find_Some_filter [OF assms(3)] obtain ys
    where f: "filter (\<lambda>r. customer_id r = cid) (rows df) = rec # ys" ..
  from assms(1) have ne: "Some cid \<noteq> tf_customer_id (temp_filters st)" by auto
  show ?thesis
    unfolding select_customer_id_def using ne assms(2) f by (simp add: Let_def)
qed

lemma select_customer_id_all:
  assumes "tf_customer_id (temp_filters st) \<noteq> Some (IdText ''All'')"
  shows "\<exists>st'. select_customer_id df (IdText ''All'') st = Inr (st', False) \<and>
       tf_customer_id (temp_filters st') = Some (IdText ''All'') \<and>
       tf_name (temp_filters st') = Some (Some ''All'') \<and>
       tf_gender (temp_filters st') = Some (Some ''All'') \<and>
       tf_region (temp_filters st') = Some (Some ''All'') \<and>
       tf_city (temp_filters st') = Some (Some ''All'')"
proof -
  from assms have ne: "Some (IdText ''All'') \<noteq> tf_customer_id (temp_filters st)" by auto
  show ?thesis unfolding select_customer_id_def using ne by (simp add: Let_def)
qed

lemma select_name_specific:
  assumes "tf_name (temp_filters st) \<noteq> Some (Some nm)" and "nm \<noteq> ''All''"
    and "find (\<lambda>r. name r = Some nm) (rows df) = Some rec"
  shows "\<exists>st'. select_name df nm st = Inr (st', True) \<and>
       tf_name (temp_filters st') = Some (Some nm) \<and>
       tf_customer_id (temp_filters st') = Some (customer_id rec) \<and>
       tf_gender (temp_filters st') = Some (gender rec) \<and>
       (''state'' \<in> set (columns df) \<longrightarrow> tf_region (temp_filters st') = Some (state rec)) \<and>
       (''city_name'' \<in> set (columns df) \<longrightarrow> tf_city (temp_filters st') = Some (city_name rec))"
proof -
  have eq: "(\<lambda>r. cell_eq (name r) (Some nm)) = (\<lambda>r. name r = Some nm)"
    by (auto simp: cell_eq_def)
  from find_Some_filter [OF assms(3)] obtain ys
    where f: "filter (\<lambda>r. name r = Some nm) (rows df) = rec # ys" ..
  from assms(1) have ne: "Some (Some nm) \<noteq> tf_name (temp_filters st)" by auto
  show ?thesis
    unfolding select_name_def eq using ne assms(2) f by (simp add: Let_def)
qed

lemma select_name_all:
  assumes "tf_name (temp_filters st) \<noteq> Some (Some ''All'')"
  shows "\<exists>st'. select_name df ''All'' st = Inr (st', False) \<and>
       tf_name (temp_filters st') = Some (Some ''All'') \<and>
       tf_customer_id (temp_filters st') = Some (IdText ''All'') \<and>
       tf_gender (temp_filters st') = Some (Some ''All'') \<and>
       tf_region (temp_filters st') = Some (Some ''All'') \<and>
       tf_city (temp_filters st') = Some (Some ''All'')"
proof -
  from assms have ne: "Some (Some ''All'') \<noteq> tf_name (temp_filters st)" by auto
  show ?thesis unfolding select_name_def using ne by (simp add: Let_def)
qed

text \<open>
  Claim C3. Selecting an identifier that differs from the stored one, is not "All" and
  occurs in the frame stores the name and gender of its first row, and its state and city
  when the frame has these columns; selecting a name does the same with the identifier.
  Setting either driver back to "All" resets the other driver, gender, region and city to
  "All".
\<close>

theorem auto_sync_of_driver_fields:
  "(tf_customer_id (temp_filters st) \<noteq> Some cid \<and> cid \<noteq> IdText ''All'' \<and>
    find (\<lambda>r. customer_id r = cid) (rows df) = Some rec \<longrightarrow>
      (\<exists>st'. select_customer_id df cid st = Inr (st', True) \<and>
         tf_customer_id (temp_filters st') = Some cid \<and>
         tf_name (temp_filters st') = Some (name rec) \<and>
         tf_gender (temp_filters st') = Some (gender rec) \<and>
         (''state'' \<in> set (columns df) \<longrightarrow> tf_region (temp_filters st') = Some (state rec)) \<and>
         (''city_name'' \<in> set (columns df) \<longrightarrow>
            tf_city (temp_filters st') = Some (city_name rec)))) \<and>
   (tf_customer_id (temp_filters st) \<noteq> Some (IdText ''All'') \<longrightarrow>
      (\<exists>st'. select_customer_id df (IdText ''All'') st = Inr (st', False) \<and>
         tf_customer_id (temp_filters st') = Some (IdText ''All'') \<and>
         tf_name (temp_filters st') = Some (Some ''All'') \<and>
         tf_gender (temp_filters st') = Some (Some ''All'') \<and>
         tf_region (temp_filters st') = Some (Some ''All'') \<and>
         tf_city (temp_filters st') = Some (Some ''All''))) \<and>
   (tf_name (temp_filters st) \<noteq> Some (Some nm) \<and> nm \<noteq> ''All'' \<and>
    find (\<lambda>r. name r = Some nm) (rows df) = Some rec' \<longrightarrow>
      (\<exists>st'. select_name df nm st = Inr (st', True) \<and>
         tf_name (temp_filters st') = Some (Some nm) \<and>
         tf_customer_id (temp_filters st') = Some (customer_id rec') \<and>
         tf_gender (temp_filters st') = Some (gender rec') \<and>
         (''state'' \<in> set (columns df) \<longrightarrow> tf_region (temp_filters st') = Some (state rec')) \<and>
         (''city_name'' \<in> set (columns df) \<longrightarrow>
            tf_city (temp_filters st') = Some (city_name rec')))) \<and>
   (tf_name (temp_filters st) \<noteq> Some (Some ''All'') \<longrightarrow>
      (\<exists>st'. select_name df ''All'' st = Inr (st', False) \<and>
         tf_name (temp_filters st') = Some (Some ''All'') \<and>
         tf_customer_id (temp_filters st') = Some (IdText ''All'') \<and>
         tf_gender (temp_filters st') = Some (Some ''All'') \<and>
         tf_region (temp_filters st') = Some (Some ''All'') \<and>
         tf_city (temp_filters st') = Some (Some ''All'')))"
  using select_customer_id_specific [of st cid df rec] select_customer_id_all [of st df]
    select_name_specific [of st nm df rec'] select_name_all [of st df]
  by blast

theorem auto_sync_witness:
  "map_sum id (\<lambda>(s, again). (temp_filters s, again))
     (select_customer_id example_customers (IdNum 2) fresh_session) =
     Inr (no_filters\<lparr>tf_customer_id := Some (IdNum 2), tf_name := Some (Some ''Ravi''),
                    tf_gender := Some (Some ''M''), tf_region := Some (Some ''East''),
                    tf_city := Some (Some ''Kolkata'')\<rparr>, True) \<and>
   map_sum id (\<lambda>(s, again). (temp_filters s, again))
     (select_name example_customers ''Meena'' fresh_session) =
     Inr (no_filters\<lparr>tf_customer_id := Some (IdNum 3), tf_name := Some (Some ''Meena''),
                    tf_gender := Some (Some ''F''), tf_region := Some (Some ''West''),
                    tf_city := Some (Some ''Mumbai'')\<rparr>, True) \<and>
   map_sum id (\<lambda>(s, again). (temp_filters s, again))
     (select_customer_id example_customers (IdText ''All'')
        (fresh_session\<lparr>temp_filters := west_shampoo_or_soap\<lparr>tf_customer_id := Some (IdNum 1)\<rparr>\<rparr>)) =
     Inr (west_shampoo_or_soap\<lparr>tf_region := Some (Some ''All'')\<rparr>, False)"
proof -
  have a: "map_sum id (\<lambda>(s, again). (temp_filters s, again))
     (select_customer_id example_customers (IdNum 2) fresh_session) =
     Inr (no_filters\<lparr>tf_customer_id := Some (IdNum 2), tf_name := Some (Some ''Ravi''),
                    tf_gender := Some (Some ''M''), tf_region := Some (Some ''East''),
                    tf_city := Some (Some ''Kolkata'')\<rparr>, True)"
    by code_simp
  have b: "map_sum id (\<lambda>(s, again). (temp_filters s, again))
     (select_name example_customers ''Meena'' fresh_session) =
     Inr (no_filters\<lparr>tf_customer_id := Some (IdNum 3), tf_name := Some (Some ''Meena''),
                    tf_gender := Some (Some ''F''), tf_region := Some (Some ''West''),
                    tf_city := Some (Some ''Mumbai'')\<rparr>, True)"
    by code_simp
  have c: "map_sum id (\<lambda>(s, again). (temp_filters s, again))
     (select_customer_id example_customers (IdText ''All'')
        (fresh_session\<lparr>temp_filters := west_shampoo_or_soap\<lparr>tf_customer_id := Some (IdNum 1)\<rparr>\<rparr>)) =
     Inr (west_shampoo_or_soap\<lparr>tf_region := Some (Some ''All'')\<rparr>, False)"
    by code_simp
  from auto_sync_of_driver_fields [of fresh_session "IdNum 2" example_customers ravi "''Meena''" meena]
  have "\<exists>st'. select_customer_id example_customers (IdNum 2) fresh_session = Inr (st', True) \<and>
      tf_name (temp_filters st') = Some (Some ''Ravi'')"
    by simp blast
  with a b c show ?thesis by simp
qed

section \<open>The filters keep exactly the rows that pass\<close>

lemma zip_map_filter_snd: "map fst (filter snd (zip xs (map f xs))) = filter f xs"
  by (induction xs) simp_all

lemma str_contains_Inr:
  "str_contains engine p col = Inr m \<Longrightarrow>
     \<exists>r. engine p = Inr r \<and>
         m = map (\<lambda>c. case c of None \<Rightarrow> False | Some s \<Rightarrow> r s) col"
  by (auto simp: str_contains_def split: sum.splits)

lemma product_hit_Cons:
  "engine p = Inr r \<Longrightarrow>
     product_hit engine (p # ps) c =
       ((case c of None \<Rightarrow> False | Some s \<Rightarrow> r s) \<or> product_hit engine ps c)"
  by (simp add: product_hit_def)

lemma products_mask_Inr:
  assumes "products_mask engine ps col acc = Inr m" and "length acc = length col"
  shows "(\<forall>p \<in> set ps. \<exists>r. engine p = Inr r) \<and>
         m = map (\<lambda>(a, c). a \<or> product_hit engine ps c) (zip acc col)"
  using assms
proof (induction ps arbitrary: acc)
  case Nil
  then show ?case by (simp add: product_hit_def map_idI split_beta map_fst_zip)
next
  case (Cons p ps)
  from Cons.prems(1) obtain m0 where m0: "str_contains engine p col = Inr m0"
    and rest: "products_mask engine ps col (map (\<lambda>(a, b). a \<or> b) (zip acc m0)) = Inr m"
    by (auto split: sum.splits)
  from str_contains_Inr [OF m0] obtain r where r: "engine p = Inr r"
    and m0': "m0 = map (\<lambda>c. case c of None \<Rightarrow> False | Some s \<Rightarrow> r s) col"
    by blast
  have len: "length (map (\<lambda>(a, b). a \<or> b) (zip acc m0)) = length col"
    using Cons.prems(2) m0' by simp
  from Cons.IH [OF rest len]
  have all: "\<forall>p \<in> set ps. \<exists>r. engine p = Inr r"
    and m: "m = map (\<lambda>(a, c). a \<or> product_hit engine ps c) (zip (map (\<lambda>(a, b). a \<or> b) (zip acc m0)) col)"
    by blast+
  have "m = map (\<lambda>(a, c). a \<or> product_hit engine (p # ps) c) (zip acc col)"
    unfolding m m0' using Cons.prems(2)
    by (intro nth_equalityI) (auto simp: product_hit_Cons [where engine = engine and p = p, OF r])
  with all r show ?case by auto
qed

lemma products_mask_total:
  assumes "\<forall>p \<in> set ps. \<exists>r. engine p = Inr r" and "length acc = length col"
  shows "products_mask engine ps col acc = Inr (map (\<lambda>(a, c). a \<or> product_hit engine ps c) (zip acc col))"
  using assms
proof (induction ps arbitrary: acc)
  case Nil
  then show ?case by (simp add: product_hit_def map_idI split_beta map_fst_zip)
next
  case (Cons p ps)
  then obtain r where r: "engine p = Inr r" by auto
  let ?m0 = "map (\<lambda>c. case c of None \<Rightarrow> False | Some s \<Rightarrow> r s) col"
  have sc: "str_contains engine p col = Inr ?m0" by (simp add: str_contains_def r)
  have len: "length (map (\<lambda>(a, b). a \<or> b) (zip acc ?m0)) = length col"
    using Cons.prems(2) by simp
  have "products_mask engine ps col (map (\<lambda>(a, b). a \<or> b) (zip acc ?m0)) =
      Inr (map (\<lambda>(a, c). a \<or> product_hit engine ps c) (zip (map (\<lambda>(a, b). a \<or> b) (zip acc ?m0)) col))"
    using Cons.prems(1) len by (intro Cons.IH) auto
  also have "map (\<lambda>(a, c). a \<or> product_hit engine ps c) (zip (map (\<lambda>(a, b). a \<or> b) (zip acc ?m0)) col)
      = map (\<lambda>(a, c). a \<or> product_hit engine (p # ps) c) (zip acc col)"
    using Cons.prems(2)
    by (intro nth_equalityI) (auto simp: product_hit_Cons [where engine = engine and p = p, OF r])
  finally show ?case by (simp add: sc)
qed

lemma mask_from_False:
  "map (\<lambda>(a, c). a \<or> product_hit engine ps c) (zip (replicate (length xs) False) (map f xs))
     = map (\<lambda>x. product_hit engine ps (f x)) xs"
  by (intro nth_equalityI) auto

lemma by_products_char:
  fixes xs :: "('a pred_row_scheme) list"
  assumes "by_products engine tf xs = Inr ys"
  shows "\<exists>P. (\<forall>zs :: ('a pred_row_scheme) list. by_products engine tf zs = Inr (filter P zs)) \<and>
     (\<forall>r ps. P r \<longrightarrow> tf_products tf = Some ps \<longrightarrow> ps \<noteq> [] \<longrightarrow>
        product_hit engine ps (purchased_products_names r))"
proof (cases "tf_products tf")
  case None
  then show ?thesis by (intro exI [of _ "\<lambda>r. True"]) (simp add: by_products_def)
next
  case (Some ps)
  show ?thesis
  proof (cases "ps = []")
    case True
    with Some show ?thesis by (intro exI [of _ "\<lambda>r. True"]) (simp add: by_products_def)
  next
    case False
    with Some assms obtain m where
      m: "products_mask engine ps (map purchased_products_names xs) (replicate (length xs) False) = Inr m"
      by (auto simp: by_products_def split: sum.splits)
    from products_mask_Inr [OF m] have all: "\<forall>p \<in> set ps. \<exists>r. engine p = Inr r" by simp
    have "by_products engine tf zs = Inr (filter (\<lambda>r. product_hit engine ps (purchased_products_names r)) zs)"
      for zs :: "('a pred_row_scheme) list"
      using Some False products_mask_total [OF all, of "replicate (length zs) False" "map purchased_products_names zs"]
      by (simp add: by_products_def mask_from_False zip_map_filter_snd)
    with Some show ?thesis
      by (intro exI [of _ "\<lambda>r. product_hit engine ps (purchased_products_names r)"]) simp
  qed
qed

lemma by_customer_id_char:
  fixes xs :: "('a pred_row_scheme) list"
  assumes "by_customer_id tf xs = Inr ys"
  shows "\<exists>P. (\<forall>zs :: ('a pred_row_scheme) list. by_customer_id tf zs = Inr (filter P zs)) \<and>
     (\<forall>r v. P r \<longrightarrow> tf_customer_id tf = Some v \<longrightarrow> v \<noteq> IdText ''All'' \<longrightarrow> customer_id r = v)"
proof -
  from assms obtain v where v: "tf_customer_id tf = Some v"
    by (auto simp: by_customer_id_def split: option.splits)
  show ?thesis
  proof (cases "v = IdText ''All''")
    case True
    with v show ?thesis by (intro exI [of _ "\<lambda>r. True"]) (simp add: by_customer_id_def)
  next
    case False
    with v show ?thesis
      by (intro exI [of _ "\<lambda>r. customer_id r = v"]) (simp add: by_customer_id_def)
  qed
qed

lemma by_name_char:
  fixes xs :: "('a pred_row_scheme) list"
  assumes "by_name tf xs = Inr ys"
  shows "\<exists>P. (\<forall>zs :: ('a pred_row_scheme) list. by_name tf zs = Inr (filter P zs)) \<and>
     (\<forall>r s. P r \<longrightarrow> tf_name tf = Some (Some s) \<longrightarrow> s \<noteq> ''All'' \<longrightarrow> name r = Some s)"
proof -
  from assms obtain v where v: "tf_name tf = Some v"
    by (auto simp: by_name_def split: option.splits)
  show ?thesis
  proof (cases "v = Some ''All''")
    case True
    with v show ?thesis by (intro exI [of _ "\<lambda>r. True"]) (simp add: by_name_def)
  next
    case False
    with v show ?thesis
      by (intro exI [of _ "\<lambda>r. cell_eq (name r) v"]) (simp add: by_name_def cell_eq_def)
  qed
qed

lemma by_gender_char:
  fixes xs :: "('a pred_row_scheme) list"
  assumes "by_gender tf xs = Inr ys"
  shows "\<exists>P. (\<forall>zs :: ('a pred_row_scheme) list. by_gender tf zs = Inr (filter P zs)) \<and>
     (\<forall>r s. P r \<longrightarrow> tf_gender tf = Some (Some s) \<longrightarrow> s \<noteq> ''All'' \<longrightarrow> gender r = Some s)"
proof -
  from assms obtain v where v: "tf_gender tf = Some v"
    by (auto simp: by_gender_def split: option.splits)
  show ?thesis
  proof (cases "v = Some ''All''")
    case True
    with v show ?thesis by (intro exI [of _ "\<lambda>r. True"]) (simp add: by_gender_def)
  next
    case False
    with v show ?thesis
      by (intro exI [of _ "\<lambda>r. cell_eq (gender r) v"]) (simp add: by_gender_def cell_eq_def)
  qed
qed

lemma by_region_char:
  fixes xs :: "('a pred_row_scheme) list"
  assumes "by_region tf cols xs = Inr ys"
  shows "\<exists>P. (\<forall>zs :: ('a pred_row_scheme) list. by_region tf cols zs = Inr (filter P zs)) \<and>
     (\<forall>r s. P r \<longrightarrow> tf_region tf = Some (Some s) \<longrightarrow> s \<noteq> ''All'' \<longrightarrow> s \<noteq> [] \<longrightarrow>
        state r = Some s)"
proof (cases "\<exists>v. tf_region tf = Some v \<and> truthy v \<and> v \<noteq> Some ''All''")
  case True
  then obtain v where v: "tf_region tf = Some v" "truthy v" "v \<noteq> Some ''All''" by blast
  with assms have "''state'' \<in> set cols"
    by (auto simp: by_region_def split: if_splits)
  with v show ?thesis
    by (intro exI [of _ "\<lambda>r. cell_eq (state r) v"]) (simp add: by_region_def cell_eq_def)
next
  case False
  then show ?thesis
    by (intro exI [of _ "\<lambda>r. True"]) (auto simp: by_region_def truthy_def split: option.splits)
qed

lemma by_city_char:
  fixes xs :: "('a pred_row_scheme) list"
  assumes "by_city tf cols xs = Inr ys"
  shows "\<exists>P. (\<forall>zs :: ('a pred_row_scheme) list. by_city tf cols zs = Inr (filter P zs)) \<and>
     (\<forall>r s. P r \<longrightarrow> tf_city tf = Some (Some s) \<longrightarrow> s \<noteq> ''All'' \<longrightarrow> s \<noteq> [] \<longrightarrow>
        city_name r = Some s)"
proof (cases "\<exists>v. tf_city tf = Some v \<and> truthy v \<and> v \<noteq> Some ''All''")
  case True
  then obtain v where v: "tf_city tf = Some v" "truthy v" "v \<noteq> Some ''All''" by blast
  with assms have "''city_name'' \<in> set cols"
    by (auto simp: by_city_def split: if_splits)
  with v show ?thesis
    by (intro exI [of _ "\<lambda>r. cell_eq (city_name r) v"]) (simp add: by_city_def cell_eq_def)
next
  case False
  then show ?thesis
    by (intro exI [of _ "\<lambda>r. True"]) (auto simp: by_city_def truthy_def split: option.splits)
qed

lemma in_range_iff: "in_range x lo hi \<longleftrightarrow> (\<exists>v. x = Some v \<and> lo \<le> v \<and> v \<le> hi)"
  by (cases x) (simp_all add: in_range_def)

lemma in_range_percent:
  "in_range (percent f x) lo hi \<longleftrightarrow> (\<exists>v. x = Some v \<and> lo \<le> f v \<and> f v \<le> hi)"
  by (cases x) (simp_all add: in_range_def percent_def)

lemma by_similarity_char:
  fixes xs :: "('a pred_row_scheme) list"
  shows "\<exists>P. (\<forall>zs :: ('a pred_row_scheme) list. by_similarity times100 tf zs = Inr (filter P zs)) \<and>
     (\<forall>r lo hi. P r \<longrightarrow> tf_similarity tf = Some (lo, hi) \<longrightarrow>
        (\<exists>v. Similarity_Score r = Some v \<and> lo \<le> times100 v \<and> times100 v \<le> hi))"
proof (cases "tf_similarity tf")
  case None
  then show ?thesis by (intro exI [of _ "\<lambda>r. True"]) (simp add: by_similarity_def)
next
  case (Some p)
  then show ?thesis
    by (intro exI [of _ "\<lambda>r. in_range (percent times100 (Similarity_Score r)) (fst p) (snd p)"])
      (auto simp: by_similarity_def in_range_percent split: prod.splits)
qed

lemma by_spent_char:
  fixes xs :: "('a pred_row_scheme) list"
  shows "\<exists>P. (\<forall>zs :: ('a pred_row_scheme) list. by_spent tf zs = Inr (filter P zs)) \<and>
     (\<forall>r lo hi. P r \<longrightarrow> tf_spent tf = Some (lo, hi) \<longrightarrow>
        (\<exists>v. total_spent r = Some v \<and> lo \<le> v \<and> v \<le> hi))"
proof (cases "tf_spent tf")
  case None
  then show ?thesis by (intro exI [of _ "\<lambda>r. True"]) (simp add: by_spent_def)
next
  case (Some p)
  then show ?thesis
    by (intro exI [of _ "\<lambda>r. in_range (total_spent r) (fst p) (snd p)"])
      (auto simp: by_spent_def in_range_iff split: prod.splits)
qed

lemma and_then_Inr: "and_then m f = Inr y \<Longrightarrow> \<exists>x. m = Inr x \<and> f x = Inr y"
  by (cases m) (simp_all add: and_then_def)

lemma and_then_Inr_simp: "and_then (Inr x) f = f x"
  by (simp add: and_then_def)

lemma apply_filters_char:
  fixes df :: "('a pred_row_scheme) data_frame"
  assumes "apply_filters engine times100 tf df = Inr out"
  shows "\<exists>P. (\<forall>zs. apply_filters engine times100 tf (df\<lparr>rows := zs\<rparr>) = Inr (df\<lparr>rows := filter P zs\<rparr>)) \<and>
     (\<forall>r. P r \<longrightarrow>
        (\<forall>v. tf_customer_id tf = Some v \<longrightarrow> v \<noteq> IdText ''All'' \<longrightarrow> customer_id r = v) \<and>
        (\<forall>s. tf_name tf = Some (Some s) \<longrightarrow> s \<noteq> ''All'' \<longrightarrow> name r = Some s) \<and>
        (\<forall>s. tf_gender tf = Some (Some s) \<longrightarrow> s \<noteq> ''All'' \<longrightarrow> gender r = Some s) \<and>
        (\<forall>s. tf_region tf = Some (Some s) \<longrightarrow> s \<noteq> ''All'' \<longrightarrow> s \<noteq> [] \<longrightarrow> state r = Some s) \<and>
        (\<forall>s. tf_city tf = Some (Some s) \<longrightarrow> s \<noteq> ''All'' \<longrightarrow> s \<noteq> [] \<longrightarrow> city_name r = Some s) \<and>
        (\<forall>ps. tf_products tf = Some ps \<longrightarrow> ps \<noteq> [] \<longrightarrow>
           product_hit engine ps (purchased_products_names r)) \<and>
        (\<forall>lo hi. tf_similarity tf = Some (lo, hi) \<longrightarrow>
           (\<exists>v. Similarity_Score r = Some v \<and> lo \<le> times100 v \<and> times100 v \<le> hi)) \<and>
        (\<forall>lo hi. tf_spent tf = Some (lo, hi) \<longrightarrow>
           (\<exists>v. total_spent r = Some v \<and> lo \<le> v \<and> v \<le> hi)))"
proof -
  from assms obtain r1 r2 r3 r4 r5 r6 where
    s1: "by_customer_id tf (rows df) = Inr r1" and
    s2: "by_name tf r1 = Inr r2" and
    s3: "by_gender tf r2 = Inr r3" and
    s4: "by_region tf (columns df) r3 = Inr r4" and
    s5: "by_city tf (columns df) r4 = Inr r5" and
    s6: "by_products engine tf r5 = Inr r6"
    unfolding apply_filters_def by (blast dest!: and_then_Inr)
  from by_customer_id_char [OF s1] obtain P1 where
    f1: "\<And>zs :: ('a pred_row_scheme) list. by_customer_id tf zs = Inr (filter P1 zs)" and
    c1: "\<And>r v. P1 r \<Longrightarrow> tf_customer_id tf = Some v \<Longrightarrow> v \<noteq> IdText ''All'' \<Longrightarrow> customer_id r = v"
    by blast
  from by_name_char [OF s2] obtain P2 where
    f2: "\<And>zs :: ('a pred_row_scheme) list. by_name tf zs = Inr (filter P2 zs)" and
    c2: "\<And>r s. P2 r \<Longrightarrow> tf_name tf = Some (Some s) \<Longrightarrow> s \<noteq> ''All'' \<Longrightarrow> name r = Some s"
    by blast
  from by_gender_char [OF s3] obtain P3 where
    f3: "\<And>zs :: ('a pred_row_scheme) list. by_gender tf zs = Inr (filter P3 zs)" and
    c3: "\<And>r s. P3 r \<Longrightarrow> tf_gender tf = Some (Some s) \<Longrightarrow> s \<noteq> ''All'' \<Longrightarrow> gender r = Some s"
    by blast
  from by_region_char [OF s4] obtain P4 where
    f4: "\<And>zs :: ('a pred_row_scheme) list. by_region tf (columns df) zs = Inr (filter P4 zs)" and
    c4: "\<And>r s. P4 r \<Longrightarrow> tf_region tf = Some (Some s) \<Longrightarrow> s \<noteq> ''All'' \<Longrightarrow> s \<noteq> [] \<Longrightarrow> state r = Some s"
    by blast
  from by_city_char [OF s5] obtain P5 where
    f5: "\<And>zs :: ('a pred_row_scheme) list. by_city tf (columns df) zs = Inr (filter P5 zs)" and
    c5: "\<And>r s. P5 r \<Longrightarrow> tf_city tf = Some (Some s) \<Longrightarrow> s \<noteq> ''All'' \<Longrightarrow> s \<noteq> [] \<Longrightarrow> city_name r = Some s"
    by blast
  from by_products_char [OF s6] obtain P6 where
    f6: "\<And>zs :: ('a pred_row_scheme) list. by_products engine tf zs = Inr (filter P6 zs)" and
    c6: "\<And>r ps. P6 r \<Longrightarrow> tf_products tf = Some ps \<Longrightarrow> ps \<noteq> [] \<Longrightarrow>
           product_hit engine ps (purchased_products_names r)"
    by blast
  from by_similarity_char [of times100 tf] obtain P7 where
    f7: "\<And>zs :: ('a pred_row_scheme) list. by_similarity times100 tf zs = Inr (filter P7 zs)" and
    c7: "\<And>r lo hi. P7 r \<Longrightarrow> tf_similarity tf = Some (lo, hi) \<Longrightarrow>
           (\<exists>v. Similarity_Score r = Some v \<and> lo \<le> times100 v \<and> times100 v \<le> hi)"
    by blast
  from by_spent_char [of tf] obtain P8 where
    f8: "\<And>zs :: ('a pred_row_scheme) list. by_spent tf zs = Inr (filter P8 zs)" and
    c8: "\<And>r lo hi. P8 r \<Longrightarrow> tf_spent tf = Some (lo, hi) \<Longrightarrow>
           (\<exists>v. total_spent r = Some v \<and> lo \<le> v \<and> v \<le> hi)"
    by blast
  let ?P = "\<lambda>r. P1 r \<and> P2 r \<and> P3 r \<and> P4 r \<and> P5 r \<and> P6 r \<and> P7 r \<and> P8 r"
  have run: "apply_filters engine times100 tf (df\<lparr>rows := zs\<rparr>) = Inr (df\<lparr>rows := filter ?P zs\<rparr>)" for zs
  proof -
    have "filter P8 (filter P7 (filter P6 (filter P5 (filter P4 (filter P3 (filter P2 (filter P1 zs)))))))
        = filter ?P zs"
      by (simp add: conj_commute conj_left_commute)
    then show ?thesis
      by (simp add: apply_filters_def f1 f2 f3 f4 f5 f6 f7 f8 and_then_Inr_simp)
  qed
  show ?thesis
  proof (intro exI [of _ ?P] conjI allI impI)
    fix zs show "apply_filters engine times100 tf (df\<lparr>rows := zs\<rparr>) = Inr (df\<lparr>rows := filter ?P zs\<rparr>)"
      by (rule run)
  qed (blast dest: c1 c2 c3 c4 c5 c6 c7 c8)+
qed

lemma apply_filters_out:
  fixes df :: "('a pred_row_scheme) data_frame"
  assumes "apply_filters engine times100 tf df = Inr out"
    and "\<And>zs. apply_filters engine times100 tf (df\<lparr>rows := zs\<rparr>) = Inr (df\<lparr>rows := filter P zs\<rparr>)"
  shows "out = df\<lparr>rows := filter P (rows df)\<rparr>"
  using assms(1) assms(2) [of "rows df"] by simp

lemma cond_filter: "(if b then filter P xs else xs) = filter (\<lambda>r. if b then P r else True) xs"
  by simp

lemma apply_inline_filters_rows:
  "rows (fst (apply_inline_filters sort_values c df)) =
     head (top_n c) (sort_values (filter (inline_row_ok c (columns df)) (rows df)))"
proof -
  have "filter (inline_row_ok c (columns df)) (rows df) =
    filter (\<lambda>r. if ''Frequency'' \<in> set (columns df)
                 then (case Frequency r of None \<Rightarrow> False | Some v \<Rightarrow> of_int (min_frequency c) \<le> v)
                 else True)
     (filter (\<lambda>r. if ''Recency'' \<in> set (columns df)
                 then (case Recency r of None \<Rightarrow> False | Some v \<Rightarrow> v \<le> of_int (recency_max c))
                 else True)
     (filter (\<lambda>r. if selected_spending c \<noteq> ''All''
                 then cell_eq (spending_category r) (Some (selected_spending c)) else True)
     (filter (\<lambda>r. if selected_gender c \<noteq> ''All''
                 then cell_eq (gender r) (Some (selected_gender c)) else True)
     (filter (\<lambda>r. in_range (price_inr r) (fst (price_range c)) (snd (price_range c)))
     (filter (\<lambda>r. if selected_region c \<noteq> ''All''
                 then cell_eq (region r) (Some (selected_region c)) else True)
     (filter (\<lambda>r. in_range (propensity_score r) (fst (propensity_range c)) (snd (propensity_range c)))
     (filter (\<lambda>r. if selected_product c \<noteq> ''All''
                 then cell_eq (product_col r) (Some (selected_product c)) else True)
     (filter (\<lambda>r. if selected_category c \<noteq> ''All''
                 then cell_eq (category r) (Some (selected_category c)) else True)
        (rows df)))))))))"
    unfolding filter_filter inline_row_ok_def
    by (rule filter_cong [OF refl]) blast
  then show ?thesis
    unfolding apply_inline_filters_def Let_def cond_filter by simp
qed

lemma apply_inline_filters_eq:
  "apply_inline_filters sort_values c df =
     (df\<lparr>rows := rows (fst (apply_inline_filters sort_values c df))\<rparr>,
      selected_product c, selected_category c)"
  by (simp add: apply_inline_filters_def Let_def)

lemma apply_inline_filters_triple:
  "apply_inline_filters sort_values c df =
     (fst (apply_inline_filters sort_values c df), selected_product c, selected_category c)"
  by (simp add: apply_inline_filters_def Let_def)

lemma display_inline_filters_Inr:
  "display_inline_filters sort_values c df = Inr res \<longleftrightarrow>
     inline_widgets c df = Inr () \<and> res = apply_inline_filters sort_values c df"
  by (cases "inline_widgets c df") (auto simp: display_inline_filters_def and_then_def)

lemma display_inline_filters_result:
  assumes "display_inline_filters sort_values c df = Inr (out, p, k)"
  shows "inline_widgets c df = Inr ()"
    and "out = fst (apply_inline_filters sort_values c df)"
    and "p = selected_product c" and "k = selected_category c"
proof -
  from assms show "inline_widgets c df = Inr ()" by (simp add: display_inline_filters_Inr)
  from assms have "(out, p, k) = apply_inline_filters sort_values c df"
    by (simp add: display_inline_filters_Inr)
  also note apply_inline_filters_triple
  finally show "out = fst (apply_inline_filters sort_values c df)"
    and "p = selected_product c" and "k = selected_category c"
    by simp_all
qed

text \<open>The insertion sort rearranges its input, larger scores first.\<close>

lemma before_total: "before a b \<or> before b a"
  by (auto simp: before_def split: option.splits)

lemma before_trans: "before a b \<Longrightarrow> before b c \<Longrightarrow> before a c"
  by (auto simp: before_def split: option.splits)

lemma set_insort_desc: "set (insort_desc k x xs) = insert x (set xs)"
  by (induction xs) auto

lemma mset_insort_desc: "mset (insort_desc k x xs) = add_mset x (mset xs)"
  by (induction xs) auto

lemma mset_sort_values_desc: "mset (sort_values_desc k xs) = mset xs"
  by (induction xs) (simp_all add: sort_values_desc_def mset_insort_desc)

lemma rearranges_sort_values_desc: "rearranges (sort_values_desc k)"
  by (simp add: rearranges_def mset_sort_values_desc)

lemma sorted_insort_desc:
  "sorted_wrt (\<lambda>a b. before (k a) (k b)) xs \<Longrightarrow>
   sorted_wrt (\<lambda>a b. before (k a) (k b)) (insort_desc k x xs)"
proof (induction xs)
  case Nil
  then show ?case by simp
next
  case (Cons y ys)
  show ?case
  proof (cases "before (k x) (k y)")
    case True
    with Cons.prems show ?thesis by (auto intro: before_trans)
  next
    case False
    then have "before (k y) (k x)" using before_total by blast
    with False Cons show ?thesis by (auto simp: set_insort_desc)
  qed
qed

lemma sorted_sort_values_desc:
  "sorted_wrt (\<lambda>a b. before (k a) (k b)) (sort_values_desc k xs)"
  by (induction xs) (simp_all add: sort_values_desc_def sorted_insort_desc)

lemma rearranges_set: "rearranges sort_values \<Longrightarrow> set (sort_values xs) = set xs"
  unfolding rearranges_def by (metis set_mset_mset)

lemma rearranges_length: "rearranges sort_values \<Longrightarrow> length (sort_values xs) = length xs"
  unfolding rearranges_def by (metis size_mset)

lemma mset_take_subset: "mset (take n xs) \<subseteq># mset xs"
proof -
  have "mset xs = mset (take n xs) + mset (drop n xs)"
    by (metis append_take_drop_id mset_append)
  then show ?thesis by simp
qed

lemma inline_rows_ok:
  assumes "rearranges sort_values"
    and "r \<in> set (rows (fst (apply_inline_filters sort_values c df)))"
  shows "inline_row_ok c (columns df) r"
  using assms(2) unfolding apply_inline_filters_rows head_def
  by (auto dest!: in_set_takeD simp: rearranges_set [OF assms(1)])

lemma inline_rows_mset:
  assumes "rearranges sort_values"
  shows "mset (rows (fst (apply_inline_filters sort_values c df))) \<subseteq># mset (rows df)"
proof -
  have "mset (rows (fst (apply_inline_filters sort_values c df)))
      \<subseteq># mset (sort_values (filter (inline_row_ok c (columns df)) (rows df)))"
    unfolding apply_inline_filters_rows head_def by (rule mset_take_subset)
  also have "\<dots> \<subseteq># mset (rows df)"
    using assms by (simp add: rearranges_def)
  finally show ?thesis .
qed

text \<open>
  What the kept rows satisfy, for every engine, every rounding of the product by 100 and
  every sort: the tests as the code makes them. The product test is the engine's search for
  the selected name as a pattern.
\<close>

lemma kept_rows_satisfy_filter_tests:
  fixes df :: "('a pred_row_scheme) data_frame" and df' :: "('b insight_row_scheme) data_frame"
  shows
  "(apply_filters engine times100 tf df = Inr out \<and> r \<in> set (rows out) \<longrightarrow>
      (\<forall>v. tf_customer_id tf = Some v \<longrightarrow> v \<noteq> IdText ''All'' \<longrightarrow> customer_id r = v) \<and>
      (\<forall>s. tf_name tf = Some (Some s) \<longrightarrow> s \<noteq> ''All'' \<longrightarrow> name r = Some s) \<and>
      (\<forall>s. tf_gender tf = Some (Some s) \<longrightarrow> s \<noteq> ''All'' \<longrightarrow> gender r = Some s) \<and>
      (\<forall>s. tf_region tf = Some (Some s) \<longrightarrow> s \<noteq> ''All'' \<longrightarrow> s \<noteq> [] \<longrightarrow> state r = Some s) \<and>
      (\<forall>s. tf_city tf = Some (Some s) \<longrightarrow> s \<noteq> ''All'' \<longrightarrow> s \<noteq> [] \<longrightarrow> city_name r = Some s) \<and>
      (\<forall>ps. tf_products tf = Some ps \<longrightarrow> ps \<noteq> [] \<longrightarrow>
         product_hit engine ps (purchased_products_names r)) \<and>
      (\<forall>lo hi. tf_similarity tf = Some (lo, hi) \<longrightarrow>
         (\<exists>v. Similarity_Score r = Some v \<and> lo \<le> times100 v \<and> times100 v \<le> hi)) \<and>
      (\<forall>lo hi. tf_spent tf = Some (lo, hi) \<longrightarrow>
         (\<exists>v. total_spent r = Some v \<and> lo \<le> v \<and> v \<le> hi))) \<and>
   (rearranges sort_values \<and> display_inline_filters sort_values c df' = Inr (out', p, k) \<and>
    r' \<in> set (rows out') \<longrightarrow>
      (selected_category c \<noteq> ''All'' \<longrightarrow> category r' = Some (selected_category c)) \<and>
      (selected_product c \<noteq> ''All'' \<longrightarrow> product_col r' = Some (selected_product c)) \<and>
      (\<exists>v. propensity_score r' = Some v \<and>
           fst (propensity_range c) \<le> v \<and> v \<le> snd (propensity_range c)) \<and>
      (selected_region c \<noteq> ''All'' \<longrightarrow> region r' = Some (selected_region c)) \<and>
      (\<exists>v. price_inr r' = Some v \<and> fst (price_range c) \<le> v \<and> v \<le> snd (price_range c)) \<and>
      (selected_gender c \<noteq> ''All'' \<longrightarrow> gender r' = Some (selected_gender c)) \<and>
      (selected_spending c \<noteq> ''All'' \<longrightarrow>
         spending_category r' = Some (selected_spending c)) \<and>
      (''Recency'' \<in> set (columns df') \<longrightarrow>
         (\<exists>v. Recency r' = Some v \<and> v \<le> of_int (recency_max c))) \<and>
      (''Frequency'' \<in> set (columns df') \<longrightarrow>
         (\<exists>v. Frequency r' = Some v \<and> of_int (min_frequency c) \<le> v)))"
proof (rule conjI; rule impI)
  assume a: "apply_filters engine times100 tf df = Inr out \<and> r \<in> set (rows out)"
  from apply_filters_char [of engine times100 tf df out] a obtain P where
    run: "\<And>zs. apply_filters engine times100 tf (df\<lparr>rows := zs\<rparr>) = Inr (df\<lparr>rows := filter P zs\<rparr>)" and
    props: "\<And>r. P r \<Longrightarrow>
        (\<forall>v. tf_customer_id tf = Some v \<longrightarrow> v \<noteq> IdText ''All'' \<longrightarrow> customer_id r = v) \<and>
        (\<forall>s. tf_name tf = Some (Some s) \<longrightarrow> s \<noteq> ''All'' \<longrightarrow> name r = Some s) \<and>
        (\<forall>s. tf_gender tf = Some (Some s) \<longrightarrow> s \<noteq> ''All'' \<longrightarrow> gender r = Some s) \<and>
        (\<forall>s. tf_region tf = Some (Some s) \<longrightarrow> s \<noteq> ''All'' \<longrightarrow> s \<noteq> [] \<longrightarrow> state r = Some s) \<and>
        (\<forall>s. tf_city tf = Some (Some s) \<longrightarrow> s \<noteq> ''All'' \<longrightarrow> s \<noteq> [] \<longrightarrow> city_name r = Some s) \<and>
        (\<forall>ps. tf_products tf = Some ps \<longrightarrow> ps \<noteq> [] \<longrightarrow>
           product_hit engine ps (purchased_products_names r)) \<and>
        (\<forall>lo hi. tf_similarity tf = Some (lo, hi) \<longrightarrow>
           (\<exists>v. Similarity_Score r = Some v \<and> lo \<le> times100 v \<and> times100 v \<le> hi)) \<and>
        (\<forall>lo hi. tf_spent tf = Some (lo, hi) \<longrightarrow>
           (\<exists>v. total_spent r = Some v \<and> lo \<le> v \<and> v \<le> hi))"
    by blast
  from a run have "out = df\<lparr>rows := filter P (rows df)\<rparr>"
    by (intro apply_filters_out) auto
  with a have "P r" by simp
  then show "(\<forall>v. tf_customer_id tf = Some v \<longrightarrow> v \<noteq> IdText ''All'' \<longrightarrow> customer_id r = v) \<and>
      (\<forall>s. tf_name tf = Some (Some s) \<longrightarrow> s \<noteq> ''All'' \<longrightarrow> name r = Some s) \<and>
      (\<forall>s. tf_gender tf = Some (Some s) \<longrightarrow> s \<noteq> ''All'' \<longrightarrow> gender r = Some s) \<and>
      (\<forall>s. tf_region tf = Some (Some s) \<longrightarrow> s \<noteq> ''All'' \<longrightarrow> s \<noteq> [] \<longrightarrow> state r = Some s) \<and>
      (\<forall>s. tf_city tf = Some (Some s) \<longrightarrow> s \<noteq> ''All'' \<longrightarrow> s \<noteq> [] \<longrightarrow> city_name r = Some s) \<and>
      (\<forall>ps. tf_products tf = Some ps \<longrightarrow> ps \<noteq> [] \<longrightarrow>
         product_hit engine ps (purchased_products_names r)) \<and>
      (\<forall>lo hi. tf_similarity tf = Some (lo, hi) \<longrightarrow>
         (\<exists>v. Similarity_Score r = Some v \<and> lo \<le> times100 v \<and> times100 v \<le> hi)) \<and>
      (\<forall>lo hi. tf_spent tf = Some (lo, hi) \<longrightarrow>
         (\<exists>v. total_spent r = Some v \<and> lo \<le> v \<and> v \<le> hi))"
    by (rule props)
next
  assume a: "rearranges sort_values \<and> display_inline_filters sort_values c df' = Inr (out', p, k) \<and>
    r' \<in> set (rows out')"
  then have "out' = fst (apply_inline_filters sort_values c df')"
    by (auto dest: display_inline_filters_result(2))
  with a have ok: "inline_row_ok c (columns df') r'" by (auto intro: inline_rows_ok)
  then show "(selected_category c \<noteq> ''All'' \<longrightarrow> category r' = Some (selected_category c)) \<and>
      (selected_product c \<noteq> ''All'' \<longrightarrow> product_col r' = Some (selected_product c)) \<and>
      (\<exists>v. propensity_score r' = Some v \<and>
           fst (propensity_range c) \<le> v \<and> v \<le> snd (propensity_range c)) \<and>
      (selected_region c \<noteq> ''All'' \<longrightarrow> region r' = Some (selected_region c)) \<and>
      (\<exists>v. price_inr r' = Some v \<and> fst (price_range c) \<le> v \<and> v \<le> snd (price_range c)) \<and>
      (selected_gender c \<noteq> ''All'' \<longrightarrow> gender r' = Some (selected_gender c)) \<and>
      (selected_spending c \<noteq> ''All'' \<longrightarrow>
         spending_category r' = Some (selected_spending c)) \<and>
      (''Recency'' \<in> set (columns df') \<longrightarrow>
         (\<exists>v. Recency r' = Some v \<and> v \<le> of_int (recency_max c))) \<and>
      (''Frequency'' \<in> set (columns df') \<longrightarrow>
         (\<exists>v. Frequency r' = Some v \<and> of_int (min_frequency c) \<le> v))"
    unfolding inline_row_ok_def in_range_iff cell_eq_def
    by (auto split: if_splits option.splits)
qed


text \<open>
  Applying the page's filters again changes nothing, for every engine and rounding.
\<close>

lemma apply_filters_idempotent:
  fixes df :: "('a pred_row_scheme) data_frame"
  assumes a: "apply_filters engine times100 tf df = Inr out"
  shows "apply_filters engine times100 tf out = Inr out"
proof -
  from apply_filters_char [OF a] obtain P where
    run: "\<And>zs. apply_filters engine times100 tf (df\<lparr>rows := zs\<rparr>) = Inr (df\<lparr>rows := filter P zs\<rparr>)"
    by blast
  from a run have out: "out = df\<lparr>rows := filter P (rows df)\<rparr>" by (rule apply_filters_out)
  have "apply_filters engine times100 tf out = Inr (df\<lparr>rows := filter P (filter P (rows df))\<rparr>)"
    unfolding out by (rule run)
  then show ?thesis by (simp add: out)
qed

text \<open>
  The inline filters applied to their own result: when the result has a row, the widgets
  are built again without an error and the same rows come back, in the order the sort
  gives them.
\<close>

lemma and_then_Inr_iff: "and_then m f = Inr y \<longleftrightarrow> (\<exists>x. m = Inr x \<and> f x = Inr y)"
  by (cases m) (simp_all add: and_then_def)

lemma sorted_options_Inr:
  "sorted_options col = Inr () \<longleftrightarrow> \<not> (None \<in> set col \<and> (\<exists>c \<in> set col. c \<noteq> None))"
  unfolding sorted_options_def list_ex_iff
  by (cases "None \<in> set col \<and> (\<exists>c \<in> set col. c \<noteq> None)") simp_all

lemma sorted_options_subset:
  assumes a: "sorted_options (map f xs) = Inr ()" and s: "set ys \<subseteq> set xs"
  shows "sorted_options (map f ys) = Inr ()"
proof -
  from s have i: "set (map f ys) \<subseteq> set (map f xs)" by auto
  note n = a [unfolded sorted_options_Inr]
  from n i have "\<not> (None \<in> set (map f ys) \<and> (\<exists>c \<in> set (map f ys). c \<noteq> None))" by blast
  then show ?thesis unfolding sorted_options_Inr .
qed

lemma int_of_max_Some:
  assumes "xs \<noteq> []" and "\<forall>x \<in> set xs. x \<noteq> None"
  shows "\<exists>n. int_of_max xs = Inr n"
proof -
  from assms obtain v xs' where "xs = Some v # xs'" by (cases xs) auto
  then obtain w ws where "List.map_filter id xs = w # ws"
    by (simp add: List.map_filter_simps)
  then show ?thesis by (simp add: int_of_max_def series_max_def)
qed

lemma inline_widgets_Inr:
  "inline_widgets c df = Inr () \<longleftrightarrow>
     sorted_options (map category (rows df)) = Inr () \<and>
     sorted_options (map product_col
        (if selected_category c \<noteq> ''All''
         then filter (\<lambda>r. cell_eq (category r) (Some (selected_category c))) (rows df)
         else rows df)) = Inr () \<and>
     sorted_options (map region (rows df)) = Inr () \<and>
     sorted_options (map gender (rows df)) = Inr () \<and>
     (''Recency'' \<in> set (columns df) \<longrightarrow> (\<exists>n. int_of_max (map Recency (rows df)) = Inr n)) \<and>
     (''Frequency'' \<in> set (columns df) \<longrightarrow> (\<exists>n. int_of_max (map Frequency (rows df)) = Inr n))"
  unfolding inline_widgets_def and_then_Inr_iff
  by (cases "''Recency'' \<in> set (columns df)"; cases "''Frequency'' \<in> set (columns df)") simp_all

lemma apply_inline_filters_columns:
  "columns (fst (apply_inline_filters sort_values c df)) = columns df"
  by (subst apply_inline_filters_eq) simp

lemma inline_row_ok_Recency:
  "inline_row_ok c cols r \<Longrightarrow> ''Recency'' \<in> set cols \<Longrightarrow> Recency r \<noteq> None"
  unfolding inline_row_ok_def by (cases "Recency r") simp_all

lemma inline_row_ok_Frequency:
  "inline_row_ok c cols r \<Longrightarrow> ''Frequency'' \<in> set cols \<Longrightarrow> Frequency r \<noteq> None"
  unfolding inline_row_ok_def by (cases "Frequency r") simp_all

lemma inline_widgets_on_result:
  fixes df :: "('a insight_row_scheme) data_frame"
  assumes re: "rearranges sort_values"
    and w: "inline_widgets c df = Inr ()"
    and ne: "rows (fst (apply_inline_filters sort_values c df)) \<noteq> []"
  shows "inline_widgets c (fst (apply_inline_filters sort_values c df)) = Inr ()"
proof -
  let ?out = "fst (apply_inline_filters sort_values c df)"
  let ?P = "\<lambda>r. cell_eq (category r) (Some (selected_category c))"
  note cols = apply_inline_filters_columns [of sort_values c df]
  have sub: "set (rows ?out) \<subseteq> set (rows df)"
    using set_mset_mono [OF inline_rows_mset [OF re, of c df]] by simp
  have ok: "inline_row_ok c (columns df) r" if "r \<in> set (rows ?out)" for r
    using re that by (rule inline_rows_ok)
  note w' = w [unfolded inline_widgets_Inr]
  from w' have cat: "sorted_options (map category (rows df)) = Inr ()" by (rule conjunct1)
  from w' have reg: "sorted_options (map region (rows df)) = Inr ()" by blast
  from w' have gen: "sorted_options (map gender (rows df)) = Inr ()" by blast
  from w' have prd: "sorted_options (map product_col
        (if selected_category c \<noteq> ''All'' then filter ?P (rows df) else rows df)) = Inr ()"
    by blast
  have cat2: "sorted_options (map category (rows ?out)) = Inr ()"
    using cat sub by (rule sorted_options_subset)
  have reg2: "sorted_options (map region (rows ?out)) = Inr ()"
    using reg sub by (rule sorted_options_subset)
  have gen2: "sorted_options (map gender (rows ?out)) = Inr ()"
    using gen sub by (rule sorted_options_subset)
  have sub2: "set (if selected_category c \<noteq> ''All'' then filter ?P (rows ?out) else rows ?out)
      \<subseteq> set (if selected_category c \<noteq> ''All'' then filter ?P (rows df) else rows df)"
    using sub by (cases "selected_category c \<noteq> ''All''") auto
  have prd2: "sorted_options (map product_col
        (if selected_category c \<noteq> ''All'' then filter ?P (rows ?out) else rows ?out)) = Inr ()"
    using prd sub2 by (rule sorted_options_subset)
  have rec: "\<exists>n. int_of_max (map Recency (rows ?out)) = Inr n" if "''Recency'' \<in> set (columns df)"
  proof (rule int_of_max_Some)
    show "map Recency (rows ?out) \<noteq> []" using ne by simp
    show "\<forall>x \<in> set (map Recency (rows ?out)). x \<noteq> None"
      using inline_row_ok_Recency [OF ok that] by auto
  qed
  have freq: "\<exists>n. int_of_max (map Frequency (rows ?out)) = Inr n" if "''Frequency'' \<in> set (columns df)"
  proof (rule int_of_max_Some)
    show "map Frequency (rows ?out) \<noteq> []" using ne by simp
    show "\<forall>x \<in> set (map Frequency (rows ?out)). x \<noteq> None"
      using inline_row_ok_Frequency [OF ok that] by auto
  qed
  show ?thesis
    unfolding inline_widgets_Inr cols
    using cat2 prd2 reg2 gen2 rec freq by blast
qed

lemma inline_filters_idempotent_nonempty:
  fixes df :: "('a insight_row_scheme) data_frame"
  assumes re: "rearranges sort_values"
    and run: "display_inline_filters sort_values c df = Inr (out, p, k)"
    and ne: "rows out \<noteq> []"
  shows "\<exists>out2. display_inline_filters sort_values c out = Inr (out2, p, k) \<and>
           columns out2 = columns out \<and> mset (rows out2) = mset (rows out)"
proof -
  note w = display_inline_filters_result(1) [OF run]
    and out = display_inline_filters_result(2) [OF run]
    and p = display_inline_filters_result(3) [OF run]
    and k = display_inline_filters_result(4) [OF run]
  have cols: "columns out = columns df" by (simp add: out apply_inline_filters_columns)
  have w2: "inline_widgets c out = Inr ()"
    unfolding out using re w ne [unfolded out] by (rule inline_widgets_on_result)
  let ?out2 = "fst (apply_inline_filters sort_values c out)"
  have run2: "display_inline_filters sort_values c out = Inr (?out2, p, k)"
    using w2 apply_inline_filters_triple [of sort_values c out]
    by (simp add: display_inline_filters_Inr p k)
  have keep: "filter (inline_row_ok c (columns df)) (rows out) = rows out"
    using inline_rows_ok [OF re, of _ c df] by (simp add: out)
  have len: "length (rows out) \<le> top_n c"
    by (simp add: out apply_inline_filters_rows head_def)
  have "rows ?out2 = head (top_n c) (sort_values (rows out))"
    by (simp add: apply_inline_filters_rows cols keep)
  also have "\<dots> = sort_values (rows out)"
    using len by (simp add: head_def rearranges_length [OF re])
  finally have "mset (rows ?out2) = mset (rows out)"
    using re by (simp add: rearranges_def)
  moreover have "columns ?out2 = columns out"
    by (rule apply_inline_filters_columns)
  ultimately show ?thesis using run2 by blast
qed


text \<open>
  Claim C10. For every engine, every rounding of the product by 100 and every sort that
  rearranges its input: the filtered frame has the columns of the base frame, and its rows
  are rows of the base frame, unchanged: on the prediction page a subsequence of them, for
  the inline filters a sub-multiset (the rows are sorted). So there are at most as many
  rows as before.
\<close>

theorem filtering_only_removes_rows:
  fixes df :: "('a pred_row_scheme) data_frame" and df' :: "('b insight_row_scheme) data_frame"
  shows "(apply_filters engine times100 tf df = Inr out \<longrightarrow>
        columns out = columns df \<and> subseq (rows out) (rows df) \<and>
        set (rows out) \<subseteq> set (rows df) \<and> length (rows out) \<le> length (rows df)) \<and>
     (rearranges sort_values \<and> display_inline_filters sort_values c df' = Inr (out', p, k) \<longrightarrow>
        columns out' = columns df' \<and> mset (rows out') \<subseteq># mset (rows df') \<and>
        set (rows out') \<subseteq> set (rows df') \<and> length (rows out') \<le> length (rows df'))"
proof (rule conjI; rule impI)
  assume a: "apply_filters engine times100 tf df = Inr out"
  from apply_filters_char [OF a] obtain P where
    run: "\<And>zs. apply_filters engine times100 tf (df\<lparr>rows := zs\<rparr>) = Inr (df\<lparr>rows := filter P zs\<rparr>)"
    by blast
  from a run have out: "out = df\<lparr>rows := filter P (rows df)\<rparr>" by (rule apply_filters_out)
  show "columns out = columns df \<and> subseq (rows out) (rows df) \<and>
        set (rows out) \<subseteq> set (rows df) \<and> length (rows out) \<le> length (rows df)"
    by (auto simp: out)
next
  assume a: "rearranges sort_values \<and> display_inline_filters sort_values c df' = Inr (out', p, k)"
  then have re: "rearranges sort_values"
    and out: "out' = fst (apply_inline_filters sort_values c df')"
    by (auto dest: display_inline_filters_result(2))
  have cols: "columns out' = columns df'" by (simp add: out apply_inline_filters_columns)
  have sub: "mset (rows out') \<subseteq># mset (rows df')"
    unfolding out using re by (rule inline_rows_mset)
  show "columns out' = columns df' \<and> mset (rows out') \<subseteq># mset (rows df') \<and>
        set (rows out') \<subseteq> set (rows df') \<and> length (rows out') \<le> length (rows df')"
    using cols sub set_mset_mono [OF sub] size_mset_mono [OF sub] by simp
qed

theorem only_removes_rows_witness:
  "apply_filters re_fragment (\<lambda>v. v * 100) west_shampoo_or_soap example_customers
     = Inr (example_customers\<lparr>rows := [asha]\<rparr>) \<and>
   subseq [asha] (rows example_customers) \<and>
   length (rows (example_customers\<lparr>rows := [asha]\<rparr>)) \<le> length (rows example_customers) \<and>
   apply_filters re_fragment (\<lambda>v. v * 100) (no_filters\<lparr>tf_region := Some (Some ''South'')\<rparr>)
     example_customers = Inr (example_customers\<lparr>rows := []\<rparr>) \<and>
   display_inline_filters (sort_values_desc propensity_score) hair_in_the_west example_insights =
     Inr (example_insights\<lparr>rows := [conditioner_offer, shampoo_offer]\<rparr>, ''All'', ''Hair'') \<and>
   mset [conditioner_offer, shampoo_offer] \<subseteq># mset (rows example_insights)"
proof -
  have run: "apply_filters re_fragment (\<lambda>v. v * 100) west_shampoo_or_soap example_customers =
      Inr (example_customers\<lparr>rows := [asha]\<rparr>)"
    by code_simp
  have none: "apply_filters re_fragment (\<lambda>v. v * 100)
      (no_filters\<lparr>tf_region := Some (Some ''South'')\<rparr>) example_customers =
     Inr (example_customers\<lparr>rows := []\<rparr>)"
    by code_simp
  have inl: "display_inline_filters (sort_values_desc propensity_score) hair_in_the_west
      example_insights =
     Inr (example_insights\<lparr>rows := [conditioner_offer, shampoo_offer]\<rparr>, ''All'', ''Hair'')"
    by code_simp
  have re: "rearranges (sort_values_desc (propensity_score :: insight_row \<Rightarrow> num))"
    by (rule rearranges_sort_values_desc)
  note inst = filtering_only_removes_rows
    [of re_fragment "\<lambda>v. v * 100" west_shampoo_or_soap example_customers
        "example_customers\<lparr>rows := [asha]\<rparr>" "sort_values_desc propensity_score"
        hair_in_the_west example_insights
        "example_insights\<lparr>rows := [conditioner_offer, shampoo_offer]\<rparr>" "''All''" "''Hair''"]
  from inst run have "subseq [asha] (rows example_customers)" by simp
  moreover from inst run
  have "length (rows (example_customers\<lparr>rows := [asha]\<rparr>)) \<le> length (rows example_customers)"
    by blast
  moreover from inst re inl
  have "mset [conditioner_offer, shampoo_offer] \<subseteq># mset (rows example_insights)"
    by simp
  ultimately show ?thesis using run none inl by blast
qed

section \<open>Product names as patterns\<close>

lemma parse_re_plain:
  assumes "\<forall>c \<in> set p. c \<notin> set meta_chars"
  shows "parse_re (alts, items) stack (p @ rest) =
         parse_re (alts, rev (map (\<lambda>c. (Lit c, False)) p) @ items) stack rest"
  using assms
proof (induction p arbitrary: items)
  case Nil
  then show ?case by simp
next
  case (Cons c p)
  from Cons.prems have c: "c \<notin> set meta_chars" and p: "\<forall>c \<in> set p. c \<notin> set meta_chars"
    by auto
  from c have "parse_re (alts, items) stack ((c # p) @ rest) =
      parse_re (alts, (Lit c, False) # items) stack (p @ rest)"
    by (simp add: meta_chars_def)
  also have "\<dots> = parse_re (alts, rev (map (\<lambda>c. (Lit c, False)) p) @ (Lit c, False) # items) stack rest"
    using p by (rule Cons.IH)
  finally show ?case by simp
qed

lemma re_compile_plain:
  assumes "\<forall>c \<in> set p. c \<notin> set meta_chars"
  shows "re_compile p = Inr (seq_of (map Lit p))"
proof -
  have "re_compile p = parse_re ([], rev (map (\<lambda>c. (Lit c, False)) p) @ []) [] []"
    unfolding re_compile_def using parse_re_plain [OF assms, of "[]" "[]" "[]" "[]"] by simp
  also have "\<dots> = Inr (seq_of (map Lit p))"
    by (simp add: close_frame_def close_branch_def rev_map comp_def)
  finally show ?thesis .
qed

lemma rmatch_Lit_Cons:
  "rmatch (seq_of (Lit c # map Lit p)) s =
     concat (map (rmatch (seq_of (map Lit p))) (rmatch (Lit c) s))"
  by (cases p) (simp_all split: list.splits)

lemma rmatch_plain:
  "rmatch (seq_of (map Lit p)) s =
     (if prefix (lower p) (lower s) then [drop (length p) s] else [])"
proof (induction p arbitrary: s)
  case Nil
  then show ?case by (simp add: lower_def)
next
  case (Cons c p)
  show ?case
  proof (cases s)
    case Nil
    then show ?thesis using rmatch_Lit_Cons [of c p s] by (simp add: lower_def)
  next
    case (Cons d t)
    then show ?thesis
      using rmatch_Lit_Cons [of c p s] Cons.IH [of t]
      by (auto simp: lower_def)
  qed
qed

lemma re_search_plain:
  "re_search (seq_of (map Lit p)) s = is_substring (lower p) (lower s)"
proof (induction s)
  case Nil
  then show ?case by (simp add: rmatch_plain lower_def)
next
  case (Cons c s)
  have "lower (c # s) = to_lower c # lower s" by (simp add: lower_def)
  then show ?case using Cons by (simp add: rmatch_plain)
qed

lemma str_contains_plain:
  assumes "\<forall>c \<in> set p. c \<notin> set meta_chars"
  shows "str_contains re_fragment p col =
     Inr (map (\<lambda>c. case c of None \<Rightarrow> False | Some s \<Rightarrow> is_substring (lower p) (lower s)) col)"
  by (auto simp: str_contains_def re_fragment_def re_compile_plain [OF assms] re_search_plain
      split: option.splits)

text \<open>
  Claim C4 at its failing inputs. The selected product name is compiled as a regular
  expression. A name with parentheses does not find itself: the product
  "Shampoo (2 in 1)" is a substring of the cell "Shampoo (2 in 1), Soap", and the mask
  is False. A name with a dot finds text it does not occur in. On names without pattern
  characters the mask is the substring test (\<open>str_contains_plain\<close>), as in the
  scenario with Shampoo and Soap.
\<close>

theorem product_filter_reads_names_as_patterns:
  "products_mask re_fragment [''Shampoo (2 in 1)''] [Some ''Shampoo (2 in 1), Soap''] [False] = Inr [False] \<and>
   is_substring (lower ''Shampoo (2 in 1)'') (lower ''Shampoo (2 in 1), Soap'') \<and>
   products_mask re_fragment [''Wash 2.0''] [Some ''Face Wash 200ml''] [False] = Inr [True] \<and>
   \<not> is_substring (lower ''Wash 2.0'') (lower ''Face Wash 200ml'') \<and>
   products_mask re_fragment [''Shampoo'', ''Soap'']
     [Some ''Shampoo, Conditioner'', Some ''Soap, Towel'', Some ''Brush''] [False, False, False]
     = Inr [True, True, False]"
  by code_simp

end
